theory Spec2Isabelle
  imports Main
begin

section \<open>Python values and exceptions\<close>

text \<open>
  The script \<^verbatim>\<open>quizgen.py\<close> handles three kinds of data: text (the usage-count file, the
  lines typed by the user, the text returned by the chat service), the Python objects that
  \<^verbatim>\<open>json.loads\<close> builds from that text, and exceptions.

  Text read from the outside is a list of 8-bit characters (code points below 256). The
  strings inside decoded JSON are lists of code points, because a \<^verbatim>\<open>\uXXXX\<close> escape can
  name any of them. A finite float is the dyadic rational \<open>m * 2 ^ e\<close>; how Python rounds a
  decimal literal to a float and how it prints a float are parameters of the model
  (\<open>float_ops\<close> below), not modelled here.
\<close>

type_synonym pystr = "nat list"

datatype pyfloat = FNaN | FInf | FNegInf | FFinite int int

datatype pyval =
    PNone
  | PBool bool
  | PInt int
  | PFloat pyfloat
  | PStr pystr
  | PList "pyval list"
  | PDict "(pystr \<times> pyval) list"

text \<open>A string literal of the source, as code points.\<close>

definition codepoints :: "string \<Rightarrow> pystr" where
  "codepoints s = map of_char s"

text \<open>
  The exceptions the script can meet. \<open>ApiError\<close> stands for whatever ordinary exception
  (a subclass of \<^verbatim>\<open>Exception\<close>: network, authentication, service errors) the chat client
  raises. \<^verbatim>\<open>KeyboardInterrupt\<close> derives from \<^verbatim>\<open>BaseException\<close> only, and
  \<^verbatim>\<open>json.JSONDecodeError\<close> is a subclass of \<^verbatim>\<open>ValueError\<close>.
\<close>

datatype exn =
    JSONDecodeError
  | ValueError
  | KeyError pyval
  | IndexError
  | TypeError
  | NameError string
  | UnboundLocalError string
  | EOFError
  | KeyboardInterrupt
  | ApiError string

definition is_Exception :: "exn \<Rightarrow> bool" where
  "is_Exception e = (e \<noteq> KeyboardInterrupt)"

definition is_JSONDecodeError :: "exn \<Rightarrow> bool" where
  "is_JSONDecodeError e = (e = JSONDecodeError)"

definition is_ValueError :: "exn \<Rightarrow> bool" where
  "is_ValueError e = (e = ValueError \<or> e = JSONDecodeError)"

section \<open>Integers as text: \<^verbatim>\<open>int(s)\<close>, \<^verbatim>\<open>str(n)\<close>, \<^verbatim>\<open>s.strip()\<close>\<close>

text \<open>
  Whitespace as \<^verbatim>\<open>str.strip()\<close> sees it, for code points below 256: tab to carriage
  return, the four separators 0x1C to 0x1F, space, NEL (0x85) and the no-break space
  (0xA0).
\<close>

definition is_space :: "char \<Rightarrow> bool" where
  "is_space c = (let n = (of_char c :: nat) in
     (9 \<le> n \<and> n \<le> 13) \<or> (28 \<le> n \<and> n \<le> 32) \<or> n = 133 \<or> n = 160)"

definition py_strip :: "string \<Rightarrow> string" where
  "py_strip s = rev (dropWhile is_space (rev (dropWhile is_space s)))"

text \<open>
  Whitespace as \<^verbatim>\<open>int()\<close> skips it around the literal: the same characters but for the
  four separators 0x1C to 0x1F, which \<^verbatim>\<open>int()\<close> does not skip (\<^verbatim>\<open>int("\x1f2")\<close> raises
  \<^verbatim>\<open>ValueError\<close>).
\<close>

definition is_int_space :: "char \<Rightarrow> bool" where
  "is_int_space c = (let n = (of_char c :: nat) in
     (9 \<le> n \<and> n \<le> 13) \<or> n = 32 \<or> n = 133 \<or> n = 160)"

definition int_strip :: "string \<Rightarrow> string" where
  "int_strip s = rev (dropWhile is_int_space (rev (dropWhile is_int_space s)))"

definition is_digit :: "char \<Rightarrow> bool" where
  "is_digit c = (let n = (of_char c :: nat) in 48 \<le> n \<and> n \<le> 57)"

definition digit_val :: "char \<Rightarrow> nat" where
  "digit_val c = of_char c - 48"

definition digit_char :: "nat \<Rightarrow> char" where
  "digit_char d = char_of (48 + d mod 10)"

text \<open>
  The digits of a decimal integer literal as \<^verbatim>\<open>int()\<close> accepts them: a digit first, and
  a single underscore allowed between two digits.
\<close>

fun py_digits :: "nat \<Rightarrow> string \<Rightarrow> nat option" where
  "py_digits acc [] = Some acc"
| "py_digits acc [c] = (if is_digit c then Some (10 * acc + digit_val c) else None)"
| "py_digits acc (c # d # cs) =
     (if is_digit c then py_digits (10 * acc + digit_val c) (d # cs)
      else if c = CHR ''_'' \<and> is_digit d then py_digits acc (d # cs)
      else None)"

definition py_nat_literal :: "string \<Rightarrow> nat option" where
  "py_nat_literal s =
     (case s of [] \<Rightarrow> None | c # cs \<Rightarrow> if is_digit c then py_digits 0 s else None)"

text \<open>\<^verbatim>\<open>int(s)\<close> for a string: surrounding whitespace, an optional sign, the digits.\<close>

definition py_int :: "string \<Rightarrow> exn + int" where
  "py_int s =
     (case int_strip s of
        [] \<Rightarrow> Inl ValueError
      | c # cs \<Rightarrow>
          if c = CHR ''-'' then
            (case py_nat_literal cs of None \<Rightarrow> Inl ValueError | Some n \<Rightarrow> Inr (- int n))
          else if c = CHR ''+'' then
            (case py_nat_literal cs of None \<Rightarrow> Inl ValueError | Some n \<Rightarrow> Inr (int n))
          else
            (case py_nat_literal (c # cs) of None \<Rightarrow> Inl ValueError | Some n \<Rightarrow> Inr (int n)))"

fun str_nat :: "nat \<Rightarrow> string" where
  "str_nat n = (if n < 10 then [digit_char n] else str_nat (n div 10) @ [digit_char (n mod 10)])"

declare str_nat.simps [simp del]

text \<open>\<^verbatim>\<open>str(n)\<close> for an integer.\<close>

definition py_str_int :: "int \<Rightarrow> string" where
  "py_str_int n = (if n < 0 then CHR ''-'' # str_nat (nat (- n)) else str_nat (nat n))"

section \<open>The process state\<close>

text \<open>
  What the user does at a prompt: types a line, or presses Ctrl-C. When the list of
  events is used up, standard input is at its end and \<^verbatim>\<open>input()\<close> raises
  \<^verbatim>\<open>EOFError\<close>.
\<close>

datatype input_event = Typed string | CtrlC

text \<open>
  One constructor per \<^verbatim>\<open>print\<close> (or \<^verbatim>\<open>input\<close> prompt) of the source. The values that
  the source formats into a line are kept as they are, not rendered; that the terminal may
  refuse to encode a character is not modelled.
\<close>

datatype out_line =
    OutJson string
  | OutNoQuestions
  | OutQuestion nat pyval
  | OutChoice nat pyval
  | OutPrompt
  | OutCorrect
  | OutWrong pyval
  | OutExplanation pyval
  | OutInvalidRange
  | OutInterrupted
  | OutInvalid

datatype err_line = ErrParse exn | ErrRaw string | ErrApi exn

record proc =
  usage_file :: "string option"
  usage_count :: int
  stdin :: "input_event list"
  stdout :: "out_line list"
  stderr :: "err_line list"

section \<open>The usage counter (lines 7 to 20)\<close>

text \<open>
  \<^verbatim>\<open>
  if os.path.exists(usage_file):
      with open(usage_file, "r") as f:
          usage_count = int(f.read().strip() or 0)
  else:
      usage_count = 0
  \<close>
  The file is \<open>None\<close> when it does not exist, and its content otherwise.
\<close>

definition read_usage_count :: "string option \<Rightarrow> exn + int" where
  "read_usage_count file =
     (case file of
        None \<Rightarrow> Inr 0
      | Some content \<Rightarrow>
          (let s = py_strip content in if s = [] then Inr 0 else py_int s))"

text \<open>
  \<^verbatim>\<open>
  def log_api_usage():
      global usage_count
      usage_count += 1
      with open(usage_file, "w") as f:
          f.write(str(usage_count))
  \<close>
\<close>

definition log_api_usage :: "proc \<Rightarrow> proc" where
  "log_api_usage p =
     p\<lparr>usage_count := usage_count p + 1,
       usage_file := Some (py_str_int (usage_count p + 1))\<rparr>"

section \<open>The JSON codec of the standard library\<close>

text \<open>
  \<^verbatim>\<open>json.loads\<close> and \<^verbatim>\<open>json.dumps\<close> belong to Python's standard library, not to the
  script. They are modelled after the library's \<^verbatim>\<open>json/decoder.py\<close>, \<^verbatim>\<open>json/scanner.py\<close>
  and \<^verbatim>\<open>json/encoder.py\<close>, with the default options the script calls them with. Not
  modelled: the interpreter's recursion limit and its limit on the digits of an integer
  literal.
\<close>

abbreviation dquote :: char where "dquote \<equiv> CHR 0x22"
abbreviation bslash :: char where "bslash \<equiv> CHR 0x5C"

text \<open>
  The text of \<^verbatim>\<open>float.__repr__\<close> for a finite float: a sign, the integer digits, the
  digits after the point (none when the text has no point), a decimal exponent.
\<close>

record float_text =
  ft_negative :: bool
  ft_int :: nat
  ft_frac :: "nat list"
  ft_exp :: "int option"

text \<open>
  The two floating-point operations the codec uses: \<^verbatim>\<open>float(text)\<close> on a number
  literal that has a fraction or an exponent, and \<^verbatim>\<open>float.__repr__\<close> on the finite
  float \<open>m * 2 ^ e\<close>.
\<close>

record float_ops =
  float_of_literal :: "string \<Rightarrow> pyfloat"
  float_repr :: "int \<Rightarrow> int \<Rightarrow> float_text"

subsection \<open>Encoding: \<^verbatim>\<open>json.dumps(obj)\<close>\<close>

definition hex_char :: "nat \<Rightarrow> char" where
  "hex_char d = (let k = d mod 16 in if k < 10 then char_of (48 + k) else char_of (87 + k))"

text \<open>\<^verbatim>\<open>'\\u{0:04x}'.format(n)\<close>, for \<open>n\<close> below 65536.\<close>

definition escape_u :: "nat \<Rightarrow> string" where
  "escape_u n =
     [bslash, CHR ''u'', hex_char (n div 4096), hex_char (n div 256), hex_char (n div 16),
      hex_char n]"

text \<open>
  \<^verbatim>\<open>encode_basestring_ascii\<close>: the backslash, the double quote and every character
  outside space to tilde are escaped; a code point from 65536 on becomes a surrogate pair.
\<close>

definition escape_char :: "nat \<Rightarrow> string" where
  "escape_char n =
     (if n = 92 then [bslash, bslash]
      else if n = 34 then [bslash, dquote]
      else if n = 8 then [bslash, CHR ''b'']
      else if n = 12 then [bslash, CHR ''f'']
      else if n = 10 then [bslash, CHR ''n'']
      else if n = 13 then [bslash, CHR ''r'']
      else if n = 9 then [bslash, CHR ''t'']
      else if 32 \<le> n \<and> n \<le> 126 then [char_of n]
      else if n < 65536 then escape_u n
      else escape_u (55296 + ((n - 65536) div 1024) mod 1024) @
           escape_u (56320 + (n - 65536) mod 1024))"

definition encode_string :: "pystr \<Rightarrow> string" where
  "encode_string s = dquote # concat (map escape_char s) @ [dquote]"

definition render_float_text :: "float_text \<Rightarrow> string" where
  "render_float_text t =
     (if ft_negative t then ''-'' else []) @ str_nat (ft_int t) @
     (if ft_frac t = [] then [] else CHR ''.'' # map digit_char (ft_frac t)) @
     (case ft_exp t of
        None \<Rightarrow> []
      | Some x \<Rightarrow>
          CHR ''e'' # (if x < 0 then CHR ''-'' else CHR ''+'') #
          (if \<bar>x\<bar> < 10 then ''0'' else []) @ str_nat (nat \<bar>x\<bar>))"

text \<open>\<^verbatim>\<open>floatstr\<close> with \<^verbatim>\<open>allow_nan=True\<close>, the default.\<close>

definition floatstr :: "float_ops \<Rightarrow> pyfloat \<Rightarrow> string" where
  "floatstr ops f =
     (case f of
        FNaN \<Rightarrow> ''NaN''
      | FInf \<Rightarrow> ''Infinity''
      | FNegInf \<Rightarrow> ''-Infinity''
      | FFinite m e \<Rightarrow> render_float_text (float_repr ops m e))"

text \<open>
  The default separators are \<^verbatim>\<open>', '\<close> and \<^verbatim>\<open>': '\<close>; the keys of a decoded object are
  strings.
\<close>

fun json_dumps :: "float_ops \<Rightarrow> pyval \<Rightarrow> string"
  and dumps_items :: "float_ops \<Rightarrow> pyval list \<Rightarrow> string"
  and dumps_members :: "float_ops \<Rightarrow> (pystr \<times> pyval) list \<Rightarrow> string"
where
  "json_dumps ops PNone = ''null''"
| "json_dumps ops (PBool b) = (if b then ''true'' else ''false'')"
| "json_dumps ops (PInt n) = py_str_int n"
| "json_dumps ops (PFloat f) = floatstr ops f"
| "json_dumps ops (PStr s) = encode_string s"
| "json_dumps ops (PList xs) = ''['' @ dumps_items ops xs @ '']''"
| "json_dumps ops (PDict kvs) = ''{'' @ dumps_members ops kvs @ ''}''"
| "dumps_items ops [] = []"
| "dumps_items ops [x] = json_dumps ops x"
| "dumps_items ops (x # y # ys) = json_dumps ops x @ '', '' @ dumps_items ops (y # ys)"
| "dumps_members ops [] = []"
| "dumps_members ops [(k, v)] = encode_string k @ '': '' @ json_dumps ops v"
| "dumps_members ops ((k, v) # m # ms) =
     encode_string k @ '': '' @ json_dumps ops v @ '', '' @ dumps_members ops (m # ms)"

subsection \<open>Decoding: \<^verbatim>\<open>json.loads(s)\<close>\<close>

text \<open>The decoder's whitespace: space, tab, line feed, carriage return.\<close>

definition is_json_ws :: "char \<Rightarrow> bool" where
  "is_json_ws c = (c = CHR '' '' \<or> c = CHR 0x09 \<or> c = CHR 0x0A \<or> c = CHR 0x0D)"

definition skip_ws :: "string \<Rightarrow> string" where
  "skip_ws cs = dropWhile is_json_ws cs"

definition hex_val :: "char \<Rightarrow> nat option" where
  "hex_val c =
     (let n = (of_char c :: nat) in
      if 48 \<le> n \<and> n \<le> 57 then Some (n - 48)
      else if 97 \<le> n \<and> n \<le> 102 then Some (n - 87)
      else if 65 \<le> n \<and> n \<le> 70 then Some (n - 55)
      else None)"

text \<open>The four hexadecimal digits after \<^verbatim>\<open>\u\<close>.\<close>

definition decode_uXXXX :: "string \<Rightarrow> (nat \<times> string) option" where
  "decode_uXXXX cs =
     (case cs of
        a # b # c # d # rest \<Rightarrow>
          (case (hex_val a, hex_val b, hex_val c, hex_val d) of
             (Some x, Some y, Some z, Some w) \<Rightarrow> Some (4096 * x + 256 * y + 16 * z + w, rest)
           | _ \<Rightarrow> None)
      | _ \<Rightarrow> None)"

text \<open>
  A \<^verbatim>\<open>\u\<close> escape, read from after the \<^verbatim>\<open>u\<close>. A high surrogate followed by another
  \<^verbatim>\<open>\u\<close> escape that is a low surrogate joins it into one code point.
\<close>

definition unicode_escape :: "string \<Rightarrow> (nat \<times> string) option" where
  "unicode_escape cs =
     (case decode_uXXXX cs of
        None \<Rightarrow> None
      | Some (uni, r1) \<Rightarrow>
          if 55296 \<le> uni \<and> uni \<le> 56319 \<and> take 2 r1 = [bslash, CHR ''u''] then
            (case decode_uXXXX (drop 2 r1) of
               None \<Rightarrow> None
             | Some (uni2, r2) \<Rightarrow>
                 if 56320 \<le> uni2 \<and> uni2 \<le> 57343
                 then Some (65536 + ((uni - 55296) * 1024 + (uni2 - 56320)), r2)
                 else Some (uni, r1))
          else Some (uni, r1))"

text \<open>The decoder's table \<^verbatim>\<open>BACKSLASH\<close> of one-letter escapes.\<close>

definition backslash_char :: "char \<Rightarrow> nat option" where
  "backslash_char e =
     (if e = dquote then Some 34
      else if e = bslash then Some 92
      else if e = CHR ''/'' then Some 47
      else if e = CHR ''b'' then Some 8
      else if e = CHR ''f'' then Some 12
      else if e = CHR ''n'' then Some 10
      else if e = CHR ''r'' then Some 13
      else if e = CHR ''t'' then Some 9
      else None)"

definition cons_result :: "nat \<Rightarrow> (pystr \<times> string) option \<Rightarrow> (pystr \<times> string) option" where
  "cons_result ch r = (case r of None \<Rightarrow> None | Some (s, rest) \<Rightarrow> Some (ch # s, rest))"

lemma decode_uXXXX_length: "decode_uXXXX cs = Some (u, r) \<Longrightarrow> length cs = length r + 4"
  by (auto simp: decode_uXXXX_def split: list.splits option.splits)

lemma unicode_escape_shorter: "unicode_escape cs = Some (u, r) \<Longrightarrow> length r < length cs"
proof -
  assume a: "unicode_escape cs = Some (u, r)"
  then obtain uni r1 where d: "decode_uXXXX cs = Some (uni, r1)"
    by (auto simp: unicode_escape_def split: option.splits)
  have 1: "length cs = length r1 + 4" using d by (rule decode_uXXXX_length)
  have "r = r1 \<or> (\<exists>uni2. decode_uXXXX (drop 2 r1) = Some (uni2, r))"
    using a d by (auto simp: unicode_escape_def split: option.splits if_splits)
  then show ?thesis
  proof
    assume "r = r1" then show ?thesis using 1 by simp
  next
    assume "\<exists>uni2. decode_uXXXX (drop 2 r1) = Some (uni2, r)"
    then obtain uni2 where "decode_uXXXX (drop 2 r1) = Some (uni2, r)" by blast
    then have "length (drop 2 r1) = length r + 4" by (rule decode_uXXXX_length)
    then show ?thesis using 1 by simp
  qed
qed

text \<open>
  \<^verbatim>\<open>scanstring\<close> in strict mode, from after the opening quote: the string's code points
  and the text after the closing quote. A control character inside the string, a bad
  escape or a missing closing quote is an error (\<open>None\<close>).
\<close>

function scanstring :: "string \<Rightarrow> (pystr \<times> string) option" where
  "scanstring [] = None"
| "scanstring (c # cs) =
     (if c = dquote then Some ([], cs)
      else if c = bslash then
        (case cs of
           [] \<Rightarrow> None
         | e # r \<Rightarrow>
             if e = CHR ''u'' then
               (case unicode_escape r of
                  None \<Rightarrow> None
                | Some (ch, r') \<Rightarrow> cons_result ch (scanstring r'))
             else
               (case backslash_char e of
                  None \<Rightarrow> None
                | Some ch \<Rightarrow> cons_result ch (scanstring r)))
      else if (of_char c :: nat) < 32 then None
      else cons_result (of_char c) (scanstring cs))"
  by pat_completeness auto
termination
  by (relation "measure length") (auto dest: unicode_escape_shorter)

declare scanstring.simps [simp del]

text \<open>
  The number pattern
  \<^verbatim>\<open>(-?(?:0|[1-9]\d*))(\.\d+)?([eE][-+]?\d+)?\<close>:
  each part gives the text it matched and the text after it.
\<close>

definition match_integer :: "string \<Rightarrow> (string \<times> string) option" where
  "match_integer cs =
     (let sgn = (if cs \<noteq> [] \<and> hd cs = CHR ''-'' then ''-'' else []);
          r = drop (length sgn) cs
      in case r of
           [] \<Rightarrow> None
         | d # r' \<Rightarrow>
             if d = CHR ''0'' then Some (sgn @ [d], r')
             else if is_digit d
             then Some (sgn @ d # takeWhile is_digit r', dropWhile is_digit r')
             else None)"

definition match_frac :: "string \<Rightarrow> (string \<times> string) option" where
  "match_frac cs =
     (case cs of
        c # d # r \<Rightarrow>
          if c = CHR ''.'' \<and> is_digit d
          then Some (c # d # takeWhile is_digit r, dropWhile is_digit r)
          else None
      | _ \<Rightarrow> None)"

definition match_exp :: "string \<Rightarrow> (string \<times> string) option" where
  "match_exp cs =
     (case cs of
        [] \<Rightarrow> None
      | e # r \<Rightarrow>
          if e = CHR ''e'' \<or> e = CHR ''E'' then
            (let sgn = (if r \<noteq> [] \<and> (hd r = CHR ''-'' \<or> hd r = CHR ''+'') then [hd r] else []);
                 r1 = drop (length sgn) r
             in case r1 of
                  [] \<Rightarrow> None
                | d # r2 \<Rightarrow>
                    if is_digit d
                    then Some (e # sgn @ d # takeWhile is_digit r2, dropWhile is_digit r2)
                    else None)
          else None)"

text \<open>
  A number: \<^verbatim>\<open>int(text)\<close> when only the integer part matched, \<^verbatim>\<open>float(text)\<close>
  otherwise.
\<close>

definition match_number :: "float_ops \<Rightarrow> string \<Rightarrow> (pyval \<times> string) option" where
  "match_number ops cs =
     (case match_integer cs of
        None \<Rightarrow> None
      | Some (integer, r1) \<Rightarrow>
          (let (frac, r2) = (case match_frac r1 of None \<Rightarrow> ([], r1) | Some m \<Rightarrow> m);
               (exp, r3) = (case match_exp r2 of None \<Rightarrow> ([], r2) | Some m \<Rightarrow> m)
           in if frac = [] \<and> exp = [] then
                (case py_int integer of Inl e \<Rightarrow> None | Inr n \<Rightarrow> Some (PInt n, r3))
              else Some (PFloat (float_of_literal ops (integer @ frac @ exp)), r3)))"

text \<open>
  \<^verbatim>\<open>dict(pairs)\<close>: a key that comes again keeps its first place and takes the later
  value.
\<close>

fun dict_set :: "(pystr \<times> pyval) list \<Rightarrow> pystr \<Rightarrow> pyval \<Rightarrow> (pystr \<times> pyval) list" where
  "dict_set [] k v = [(k, v)]"
| "dict_set ((k', v') # d) k v = (if k' = k then (k, v) # d else (k', v') # dict_set d k v)"

definition dict_of_pairs :: "(pystr \<times> pyval) list \<Rightarrow> (pystr \<times> pyval) list" where
  "dict_of_pairs ps = foldl (\<lambda>d (k, v). dict_set d k v) [] ps"

text \<open>
  \<^verbatim>\<open>scan_once\<close>, \<^verbatim>\<open>JSONArray\<close> and \<^verbatim>\<open>JSONObject\<close>. The flag says whether the constants
  \<^verbatim>\<open>NaN\<close>, \<^verbatim>\<open>Infinity\<close> and \<^verbatim>\<open>-Infinity\<close> are accepted, as Python does; without them
  the language is that of RFC 8259. The first number bounds the calls still allowed; each
  call reads at least one character, so one more than the length of the text is enough
  (\<open>decode\<close> below starts there).
\<close>

fun scan_once :: "float_ops \<Rightarrow> bool \<Rightarrow> nat \<Rightarrow> string \<Rightarrow> (pyval \<times> string) option"
  and scan_items :: "float_ops \<Rightarrow> bool \<Rightarrow> nat \<Rightarrow> string \<Rightarrow> (pyval list \<times> string) option"
  and scan_members ::
    "float_ops \<Rightarrow> bool \<Rightarrow> nat \<Rightarrow> string \<Rightarrow> ((pystr \<times> pyval) list \<times> string) option"
where
  "scan_once ops consts 0 cs = None"
| "scan_once ops consts (Suc n) cs =
     (case cs of
        [] \<Rightarrow> None
      | c # r \<Rightarrow>
          if c = dquote then
            (case scanstring r of None \<Rightarrow> None | Some (s, r') \<Rightarrow> Some (PStr s, r'))
          else if c = CHR ''{'' then
            (let r1 = skip_ws r in
             if r1 \<noteq> [] \<and> hd r1 = CHR ''}'' then Some (PDict [], tl r1)
             else (case scan_members ops consts n r1 of
                     None \<Rightarrow> None
                   | Some (pairs, r') \<Rightarrow> Some (PDict (dict_of_pairs pairs), r')))
          else if c = CHR ''['' then
            (let r1 = skip_ws r in
             if r1 \<noteq> [] \<and> hd r1 = CHR '']'' then Some (PList [], tl r1)
             else (case scan_items ops consts n r1 of
                     None \<Rightarrow> None
                   | Some (vs, r') \<Rightarrow> Some (PList vs, r')))
          else if take 4 cs = ''null'' then Some (PNone, drop 4 cs)
          else if take 4 cs = ''true'' then Some (PBool True, drop 4 cs)
          else if take 5 cs = ''false'' then Some (PBool False, drop 5 cs)
          else
            (case match_number ops cs of
               Some m \<Rightarrow> Some m
             | None \<Rightarrow>
                 if consts \<and> take 3 cs = ''NaN'' then Some (PFloat FNaN, drop 3 cs)
                 else if consts \<and> take 8 cs = ''Infinity'' then Some (PFloat FInf, drop 8 cs)
                 else if consts \<and> take 9 cs = ''-Infinity''
                 then Some (PFloat FNegInf, drop 9 cs)
                 else None))"
| "scan_items ops consts 0 cs = None"
| "scan_items ops consts (Suc n) cs =
     (case scan_once ops consts n cs of
        None \<Rightarrow> None
      | Some (v, r) \<Rightarrow>
          (case skip_ws r of
             [] \<Rightarrow> None
           | c # r1 \<Rightarrow>
               if c = CHR '']'' then Some ([v], r1)
               else if c = CHR '','' then
                 (case scan_items ops consts n (skip_ws r1) of
                    None \<Rightarrow> None
                  | Some (vs, r2) \<Rightarrow> Some (v # vs, r2))
               else None))"
| "scan_members ops consts 0 cs = None"
| "scan_members ops consts (Suc n) cs =
     (case cs of
        [] \<Rightarrow> None
      | q # r \<Rightarrow>
          if q \<noteq> dquote then None
          else
            (case scanstring r of
               None \<Rightarrow> None
             | Some (key, r1) \<Rightarrow>
                 (case skip_ws r1 of
                    [] \<Rightarrow> None
                  | c # r2 \<Rightarrow>
                      if c \<noteq> CHR '':'' then None
                      else
                        (case scan_once ops consts n (skip_ws r2) of
                           None \<Rightarrow> None
                         | Some (v, r3) \<Rightarrow>
                             (case skip_ws r3 of
                                [] \<Rightarrow> None
                              | d # r4 \<Rightarrow>
                                  if d = CHR ''}'' then Some ([(key, v)], r4)
                                  else if d = CHR '','' then
                                    (case scan_members ops consts n (skip_ws r4) of
                                       None \<Rightarrow> None
                                     | Some (pairs, r5) \<Rightarrow> Some ((key, v) # pairs, r5))
                                  else None)))))"

text \<open>
  \<^verbatim>\<open>JSONDecoder.decode\<close>: whitespace, one value, whitespace, and nothing more.
\<close>

definition decode :: "float_ops \<Rightarrow> bool \<Rightarrow> string \<Rightarrow> pyval option" where
  "decode ops consts s =
     (case scan_once ops consts (Suc (length s)) (skip_ws s) of
        None \<Rightarrow> None
      | Some (v, r) \<Rightarrow> if skip_ws r = [] then Some v else None)"

text \<open>\<^verbatim>\<open>json.loads(s)\<close>: every failure of the decoder is a \<^verbatim>\<open>JSONDecodeError\<close>.\<close>

definition json_loads :: "float_ops \<Rightarrow> string \<Rightarrow> exn + pyval" where
  "json_loads ops s = (case decode ops True s of None \<Rightarrow> Inl JSONDecodeError | Some v \<Rightarrow> Inr v)"

text \<open>
  A text is valid JSON (RFC 8259) when the decoder accepts it without the three constants
  that Python adds to the language.
\<close>

definition valid_json :: "float_ops \<Rightarrow> string \<Rightarrow> bool" where
  "valid_json ops s = (decode ops False s \<noteq> None)"

section \<open>Operations on decoded values that the script uses\<close>

text \<open>
  \<^verbatim>\<open>d[k]\<close> and \<^verbatim>\<open>k in d\<close> for a dictionary \<open>d\<close> and a key written as a string literal in
  the source.
\<close>

definition dict_get :: "(pystr \<times> pyval) list \<Rightarrow> string \<Rightarrow> exn + pyval" where
  "dict_get d k =
     (case map_of d (codepoints k) of
        None \<Rightarrow> Inl (KeyError (PStr (codepoints k)))
      | Some v \<Rightarrow> Inr v)"

definition dict_has :: "(pystr \<times> pyval) list \<Rightarrow> string \<Rightarrow> bool" where
  "dict_has d k = (map_of d (codepoints k) \<noteq> None)"

text \<open>A sequence indexed by an integer: a negative index counts from the end.\<close>

definition py_index :: "'a list \<Rightarrow> int \<Rightarrow> exn + 'a" where
  "py_index xs i =
     (let n = int (length xs); j = (if i < 0 then i + n else i)
      in if 0 \<le> j \<and> j < n then Inr (xs ! nat j) else Inl IndexError)"

text \<open>
  \<^verbatim>\<open>c[k]\<close> for decoded values. A list or a string takes an integer (a boolean counts as
  0 or 1); a dictionary, whose keys are all strings, takes any hashable key; nothing else
  can be subscripted.
\<close>

definition py_getitem :: "pyval \<Rightarrow> pyval \<Rightarrow> exn + pyval" where
  "py_getitem c k =
     (case c of
        PList xs \<Rightarrow>
          (case k of
             PInt i \<Rightarrow> py_index xs i
           | PBool b \<Rightarrow> py_index xs (if b then 1 else 0)
           | _ \<Rightarrow> Inl TypeError)
      | PStr s \<Rightarrow>
          (case k of
             PInt i \<Rightarrow> map_sum id (\<lambda>ch. PStr [ch]) (py_index s i)
           | PBool b \<Rightarrow> map_sum id (\<lambda>ch. PStr [ch]) (py_index s (if b then 1 else 0))
           | _ \<Rightarrow> Inl TypeError)
      | PDict d \<Rightarrow>
          (case k of
             PStr s \<Rightarrow> (case map_of d s of None \<Rightarrow> Inl (KeyError k) | Some v \<Rightarrow> Inr v)
           | PList _ \<Rightarrow> Inl TypeError
           | PDict _ \<Rightarrow> Inl TypeError
           | _ \<Rightarrow> Inl (KeyError k))
      | _ \<Rightarrow> Inl TypeError)"

text \<open>Iteration: the items of a list, the characters of a string, the keys of a dictionary.\<close>

definition py_iter :: "pyval \<Rightarrow> exn + pyval list" where
  "py_iter v =
     (case v of
        PList xs \<Rightarrow> Inr xs
      | PStr s \<Rightarrow> Inr (map (\<lambda>ch. PStr [ch]) s)
      | PDict d \<Rightarrow> Inr (map (\<lambda>kv. PStr (fst kv)) d)
      | _ \<Rightarrow> Inl TypeError)"

text \<open>Truth value, as \<^verbatim>\<open>not questions\<close> tests it.\<close>

definition py_truthy :: "pyval \<Rightarrow> bool" where
  "py_truthy v =
     (case v of
        PNone \<Rightarrow> False
      | PBool b \<Rightarrow> b
      | PInt n \<Rightarrow> n \<noteq> 0
      | PFloat f \<Rightarrow> (case f of FFinite m e \<Rightarrow> m \<noteq> 0 | _ \<Rightarrow> True)
      | PStr s \<Rightarrow> s \<noteq> []
      | PList xs \<Rightarrow> xs \<noteq> []
      | PDict d \<Rightarrow> d \<noteq> [])"

text \<open>\<^verbatim>\<open>n == v\<close> for an integer \<open>n\<close>: numbers compare by value, anything else is different.\<close>

definition py_eq_int :: "int \<Rightarrow> pyval \<Rightarrow> bool" where
  "py_eq_int n v =
     (case v of
        PInt m \<Rightarrow> n = m
      | PBool b \<Rightarrow> n = (if b then 1 else 0)
      | PFloat f \<Rightarrow>
          (case f of
             FFinite m e \<Rightarrow> if 0 \<le> e then n = m * 2 ^ nat e else n * 2 ^ nat (- e) = m
           | _ \<Rightarrow> False)
      | _ \<Rightarrow> False)"

section \<open>Standard output and standard input\<close>

definition emit :: "out_line \<Rightarrow> proc \<Rightarrow> proc" where
  "emit l p = p\<lparr>stdout := stdout p @ [l]\<rparr>"

text \<open>
  \<^verbatim>\<open>input("Your answer (0-3): ")\<close> writes the prompt, then reads a line; at the end of
  the input it raises \<^verbatim>\<open>EOFError\<close>, and on Ctrl-C \<^verbatim>\<open>KeyboardInterrupt\<close>.
\<close>

definition py_input :: "proc \<Rightarrow> (exn + string) \<times> proc" where
  "py_input p =
     (let p' = emit OutPrompt p in
      case stdin p of
        [] \<Rightarrow> (Inl EOFError, p')
      | Typed s # rest \<Rightarrow> (Inr s, p'\<lparr>stdin := rest\<rparr>)
      | CtrlC # rest \<Rightarrow> (Inl KeyboardInterrupt, p'\<lparr>stdin := rest\<rparr>))"

section \<open>\<^verbatim>\<open>generate_questions\<close> (lines 25 to 59)\<close>

text \<open>The prompt: the template of lines 26 to 40 with the three values filled in.\<close>

definition build_prompt :: "string \<Rightarrow> string \<Rightarrow> int \<Rightarrow> string" where
  "build_prompt topic difficulty num_questions =
     concat (map (\<lambda>l. l @ [CHR 0x0A])
       [[],
        ''You are an adaptive quiz generator.'',
        ''Topic: '' @ topic,
        ''Difficulty: '' @ difficulty,
        ''Generate '' @ py_str_int num_questions @ '' multiple-choice questions in JSON format:'',
        ''['',
        ''  {'',
        ''    \"question\": \"string\",'',
        ''    \"choices\": [\"A\", \"B\", \"C\", \"D\"],'',
        ''    \"answer_index\": 0,'',
        ''    \"explanation\": \"string\"'',
        ''  }'',
        '']'',
        ''Ensure the JSON is valid and nothing else is returned.''])"

text \<open>
  \<^verbatim>\<open>
  try:
      response = co.chat(model="command-r", message=prompt, temperature=0.7, max_tokens=800)
      questions = json.loads(response.text)
      return questions
  except json.JSONDecodeError as e:
      print(f"Error parsing JSON from Cohere output: {e}", file=sys.stderr)
      print(f"Raw response: {response.text}", file=sys.stderr)
      return []
  except Exception as e:
      print(f"Error calling Cohere API: {e}", file=sys.stderr)
      return []
  \<close>
  The chat service is a parameter: from the prompt to the text of its response, or to the
  exception the call raises. The body of the \<^verbatim>\<open>try\<close> gives the value returned or the
  exception raised, together with the text bound to \<^verbatim>\<open>response\<close> if the call got that far.
\<close>

definition try_generate ::
  "float_ops \<Rightarrow> (string \<Rightarrow> exn + string) \<Rightarrow> string \<Rightarrow> (exn + pyval) \<times> string option"
where
  "try_generate ops chat prompt =
     (case chat prompt of
        Inl e \<Rightarrow> (Inl e, None)
      | Inr text \<Rightarrow>
          (case json_loads ops text of
             Inl e \<Rightarrow> (Inl e, Some text)
           | Inr questions \<Rightarrow> (Inr questions, Some text)))"

text \<open>
  The two handlers. In the first, \<^verbatim>\<open>response.text\<close> is read after the first line is
  printed: when the call itself raised the decode error, \<^verbatim>\<open>response\<close> was never bound
  and the handler raises \<^verbatim>\<open>UnboundLocalError\<close>. An exception that is not an
  \<^verbatim>\<open>Exception\<close> passes through both.
\<close>

definition generate_questions ::
  "float_ops \<Rightarrow> (string \<Rightarrow> exn + string) \<Rightarrow> string \<Rightarrow> string \<Rightarrow> int \<Rightarrow> proc \<Rightarrow>
   (exn + pyval) \<times> proc"
where
  "generate_questions ops chat topic difficulty num_questions p =
     (case try_generate ops chat (build_prompt topic difficulty num_questions) of
        (Inr questions, response) \<Rightarrow> (Inr questions, p)
      | (Inl e, response) \<Rightarrow>
          if is_JSONDecodeError e then
            (let p1 = p\<lparr>stderr := stderr p @ [ErrParse e]\<rparr> in
             case response of
               None \<Rightarrow> (Inl (UnboundLocalError ''response''), p1)
             | Some text \<Rightarrow> (Inr (PList []), p1\<lparr>stderr := stderr p1 @ [ErrRaw text]\<rparr>))
          else if is_Exception e then
            (Inr (PList []), p\<lparr>stderr := stderr p @ [ErrApi e]\<rparr>)
          else (Inl e, p))"

section \<open>The main program (lines 61 to 114)\<close>

datatype mode = Json | Interactive

record args =
  arg_topic :: string
  arg_difficulty :: string
  arg_count :: int
  arg_mode :: mode

text \<open>How one pass through the body of the \<^verbatim>\<open>for\<close> loop ends.\<close>

datatype flow = Continue | Break | Raise exn

text \<open>How the process ends.\<close>

datatype outcome = Finished | Exited int | Uncaught exn

text \<open>
  \<^verbatim>\<open>
  for idx, choice in enumerate(q['choices']):
      print(f"  {idx}. {choice}")
  \<close>
  at lines 85 and 86, and again at lines 101 and 102.
\<close>

definition print_choices :: "(pystr \<times> pyval) list \<Rightarrow> proc \<Rightarrow> exn + proc" where
  "print_choices q p =
     (case dict_get q ''choices'' of
        Inl e \<Rightarrow> Inl e
      | Inr choices \<Rightarrow>
          (case py_iter choices of
             Inl e \<Rightarrow> Inl e
           | Inr cs \<Rightarrow>
               Inr (p\<lparr>stdout := stdout p @ map (\<lambda>(idx, choice). OutChoice idx choice)
                                               (enumerate 0 cs)\<rparr>)))"

text \<open>
  The body of the first \<^verbatim>\<open>try\<close> (lines 89 to 97):
  \<^verbatim>\<open>
  user_input = int(input("Your answer (0-3): "))
  if 0 <= user_input <= 3:
      correct = (user_input == q['answer_index'])
      correct_answer = q['choices'][q['answer_index']]
      print("Correct!" if correct else f"Wrong. Correct answer: {correct_answer}")
      if 'explanation' in q:
          print(f"Explanation: {q['explanation']}")
  else:
      print("Invalid input. Please enter 0-3.")
  \<close>
\<close>

definition first_answer :: "(pystr \<times> pyval) list \<Rightarrow> proc \<Rightarrow> (exn + unit) \<times> proc" where
  "first_answer q p =
     (case py_input p of
        (Inl e, p1) \<Rightarrow> (Inl e, p1)
      | (Inr line, p1) \<Rightarrow>
          (case py_int line of
             Inl e \<Rightarrow> (Inl e, p1)
           | Inr user_input \<Rightarrow>
               if 0 \<le> user_input \<and> user_input \<le> 3 then
                 (case dict_get q ''answer_index'' of
                    Inl e \<Rightarrow> (Inl e, p1)
                  | Inr answer_index \<Rightarrow>
                      (case dict_get q ''choices'' of
                         Inl e \<Rightarrow> (Inl e, p1)
                       | Inr choices \<Rightarrow>
                           (case py_getitem choices answer_index of
                              Inl e \<Rightarrow> (Inl e, p1)
                            | Inr correct_answer \<Rightarrow>
                                (let p2 = emit (if py_eq_int user_input answer_index
                                                then OutCorrect
                                                else OutWrong correct_answer) p1
                                 in if dict_has q ''explanation'' then
                                      (case dict_get q ''explanation'' of
                                         Inl e \<Rightarrow> (Inl e, p2)
                                       | Inr ex \<Rightarrow> (Inr (), emit (OutExplanation ex) p2))
                                    else (Inr (), p2)))))
               else (Inr (), emit OutInvalidRange p1)))"

text \<open>
  Lines 101 to 114, which follow the first \<^verbatim>\<open>try\<close> statement inside the loop body:
  \<^verbatim>\<open>
  for idx, choice in enumerate(q['choices']):
      print(f"  {idx}. {choice}")
  try:
      user_input = int(input("Your answer (0-3): "))
  except ValueError:
      print("Invalid input.")
      continue
  correct = (user_input == q['answer_index'])
  print("Correct!" if correct else f"Wrong. Correct answer: {q['choices'][q['answer_index']]}")
  print(f"Explanation: {q['explanation']}")
  ability_score = update_ability(ability_score, correct)
  \<close>
  Neither \<^verbatim>\<open>update_ability\<close> nor \<^verbatim>\<open>ability_score\<close> is defined anywhere in the script: the
  last line raises \<^verbatim>\<open>NameError\<close> when it looks the function up.
\<close>

definition second_answer :: "(pystr \<times> pyval) list \<Rightarrow> proc \<Rightarrow> flow \<times> proc" where
  "second_answer q p =
     (case print_choices q p of
        Inl e \<Rightarrow> (Raise e, p)
      | Inr p1 \<Rightarrow>
          (case py_input p1 of
             (Inl e, p2) \<Rightarrow> (Raise e, p2)
           | (Inr line, p2) \<Rightarrow>
               (case py_int line of
                  Inl e \<Rightarrow> (Continue, emit OutInvalid p2)
                | Inr user_input \<Rightarrow>
                    (case dict_get q ''answer_index'' of
                       Inl e \<Rightarrow> (Raise e, p2)
                     | Inr answer_index \<Rightarrow>
                         (case (if py_eq_int user_input answer_index then Inr OutCorrect
                                else (case dict_get q ''choices'' of
                                        Inl e \<Rightarrow> Inl e
                                      | Inr choices \<Rightarrow>
                                          map_sum id OutWrong (py_getitem choices answer_index)))
                          of
                            Inl e \<Rightarrow> (Raise e, p2)
                          | Inr verdict \<Rightarrow>
                              (let p3 = emit verdict p2 in
                               case dict_get q ''explanation'' of
                                 Inl e \<Rightarrow> (Raise e, p3)
                               | Inr ex \<Rightarrow>
                                   (Raise (NameError ''update_ability''),
                                    emit (OutExplanation ex) p3)))))))"

text \<open>
  One pass through the loop body for question number \<open>i\<close> (lines 84 to 114). Subscripting
  \<open>q\<close> with a string raises \<^verbatim>\<open>TypeError\<close> unless \<open>q\<close> is a dictionary. The handler of the
  first \<^verbatim>\<open>try\<close> catches \<^verbatim>\<open>ValueError\<close> and \<^verbatim>\<open>KeyboardInterrupt\<close> only.
\<close>

definition quiz_step :: "nat \<Rightarrow> pyval \<Rightarrow> proc \<Rightarrow> flow \<times> proc" where
  "quiz_step i question p =
     (case question of
        PDict q \<Rightarrow>
          (case dict_get q ''question'' of
             Inl e \<Rightarrow> (Raise e, p)
           | Inr text \<Rightarrow>
               (let p1 = emit (OutQuestion i text) p in
                case print_choices q p1 of
                  Inl e \<Rightarrow> (Raise e, p1)
                | Inr p2 \<Rightarrow>
                    (case first_answer q p2 of
                       (Inl e, p3) \<Rightarrow>
                         if is_ValueError e \<or> e = KeyboardInterrupt
                         then (Break, emit OutInterrupted p3)
                         else (Raise e, p3)
                     | (Inr u, p3) \<Rightarrow> second_answer q p3)))
      | _ \<Rightarrow> (Raise TypeError, p))"

text \<open>\<^verbatim>\<open>for i, q in enumerate(questions, start=1)\<close>.\<close>

fun quiz_loop :: "nat \<Rightarrow> pyval list \<Rightarrow> proc \<Rightarrow> outcome \<times> proc" where
  "quiz_loop i [] p = (Finished, p)"
| "quiz_loop i (q # qs) p =
     (case quiz_step i q p of
        (Continue, p') \<Rightarrow> quiz_loop (Suc i) qs p'
      | (Break, p') \<Rightarrow> (Finished, p')
      | (Raise e, p') \<Rightarrow> (Uncaught e, p'))"

text \<open>
  \<^verbatim>\<open>
  if args.mode == "json":
      questions = generate_questions(args.topic, args.difficulty, args.count)
      print(json.dumps(questions))
  else:
      questions = generate_questions(args.topic, args.difficulty, args.count)
      if not questions:
          print("No questions generated.")
          sys.exit(1)
      for i, q in enumerate(questions, start=1):
          ...
  \<close>
  The arguments are those \<^verbatim>\<open>argparse\<close> has accepted.
\<close>

definition main :: "float_ops \<Rightarrow> (string \<Rightarrow> exn + string) \<Rightarrow> args \<Rightarrow> proc \<Rightarrow> outcome \<times> proc"
where
  "main ops chat a p =
     (case arg_mode a of
        Json \<Rightarrow>
          (case generate_questions ops chat (arg_topic a) (arg_difficulty a) (arg_count a) p of
             (Inl e, p1) \<Rightarrow> (Uncaught e, p1)
           | (Inr questions, p1) \<Rightarrow> (Finished, emit (OutJson (json_dumps ops questions)) p1))
      | Interactive \<Rightarrow>
          (case generate_questions ops chat (arg_topic a) (arg_difficulty a) (arg_count a) p of
             (Inl e, p1) \<Rightarrow> (Uncaught e, p1)
           | (Inr questions, p1) \<Rightarrow>
               if \<not> py_truthy questions then (Exited 1, emit OutNoQuestions p1)
               else (case py_iter questions of
                       Inl e \<Rightarrow> (Uncaught e, p1)
                     | Inr qs \<Rightarrow> quiz_loop 1 qs p1)))"

text \<open>
  The whole run: the module reads the usage count when it is loaded (an exception there
  ends the process before anything else happens), then the main program runs.
\<close>

definition start :: "string option \<Rightarrow> input_event list \<Rightarrow> int \<Rightarrow> proc" where
  "start file inputs n =
     \<lparr>usage_file = file, usage_count = n, stdin = inputs, stdout = [], stderr = []\<rparr>"

definition run_program ::
  "float_ops \<Rightarrow> (string \<Rightarrow> exn + string) \<Rightarrow> args \<Rightarrow> string option \<Rightarrow> input_event list \<Rightarrow>
   outcome \<times> proc"
where
  "run_program ops chat a file inputs =
     (case read_usage_count file of
        Inl e \<Rightarrow> (Uncaught e, start file inputs 0)
      | Inr n \<Rightarrow> main ops chat a (start file inputs n))"

text \<open>
  The exit status: 0 at the end of the script, the argument of \<^verbatim>\<open>sys.exit\<close>, 1 after an
  uncaught exception (130 for an uncaught \<^verbatim>\<open>KeyboardInterrupt\<close>, as a POSIX shell reports
  it).
\<close>

definition exit_status :: "outcome \<Rightarrow> int" where
  "exit_status out =
     (case out of
        Finished \<Rightarrow> 0
      | Exited n \<Rightarrow> n
      | Uncaught e \<Rightarrow> if e = KeyboardInterrupt then 130 else 1)"

section \<open>Sample data for the closed instances\<close>

text \<open>
  Stand-ins for the two floating-point operations (any functions would do: no theorem
  below depends on what they return), a question of the shape the prompt asks for, and
  the command lines of the two modes with the default arguments.
\<close>

definition sample_ops :: float_ops where
  "sample_ops =
     \<lparr>float_of_literal = (\<lambda>s. FFinite 0 0),
      float_repr = (\<lambda>m e. \<lparr>ft_negative = False, ft_int = 0, ft_frac = [0], ft_exp = None\<rparr>)\<rparr>"

definition sample_choices :: "pyval list" where
  "sample_choices =
     [PStr (codepoints ''A''), PStr (codepoints ''B''), PStr (codepoints ''C''),
      PStr (codepoints ''D'')]"

definition sample_question :: "(pystr \<times> pyval) list" where
  "sample_question =
     [(codepoints ''question'', PStr (codepoints ''What does HTML stand for?'')),
      (codepoints ''choices'', PList sample_choices),
      (codepoints ''answer_index'', PInt 0),
      (codepoints ''explanation'', PStr (codepoints ''It is a markup language.''))]"

text \<open>What the loop prints for the sample question: its header, and its four choices.\<close>

definition sample_header :: "nat \<Rightarrow> out_line list" where
  "sample_header i =
     [OutQuestion i (PStr (codepoints ''What does HTML stand for?'')),
      OutChoice 0 (PStr (codepoints ''A'')), OutChoice 1 (PStr (codepoints ''B'')),
      OutChoice 2 (PStr (codepoints ''C'')), OutChoice 3 (PStr (codepoints ''D''))]"

definition sample_args :: "mode \<Rightarrow> args" where
  "sample_args m =
     \<lparr>arg_topic = ''HTML Basics'', arg_difficulty = ''beginner'', arg_count = 1, arg_mode = m\<rparr>"

text \<open>The text of a response that holds the sample question once, and twice.\<close>

definition sample_object :: string where
  "sample_object =
     ''{\"question\": \"What does HTML stand for?\", \"choices\": [\"A\", \"B\", \"C\", \"D\"], '' @
     ''\"answer_index\": 0, \"explanation\": \"It is a markup language.\"}''"

definition sample_response :: string where
  "sample_response = ''['' @ sample_object @ '']''"

definition sample_response2 :: string where
  "sample_response2 = ''['' @ sample_object @ '', '' @ sample_object @ '']''"

section \<open>Classes of decoded values\<close>

text \<open>
  A decoded value has finite floats when neither it nor anything inside it is the float
  \<^verbatim>\<open>nan\<close>, \<^verbatim>\<open>inf\<close> or \<^verbatim>\<open>-inf\<close>.
\<close>

fun finite_floats :: "pyval \<Rightarrow> bool"
  and finite_items :: "pyval list \<Rightarrow> bool"
  and finite_members :: "(pystr \<times> pyval) list \<Rightarrow> bool"
where
  "finite_floats PNone = True"
| "finite_floats (PBool b) = True"
| "finite_floats (PInt n) = True"
| "finite_floats (PFloat f) = (case f of FFinite m e \<Rightarrow> True | _ \<Rightarrow> False)"
| "finite_floats (PStr s) = True"
| "finite_floats (PList xs) = finite_items xs"
| "finite_floats (PDict kvs) = finite_members kvs"
| "finite_items [] = True"
| "finite_items (x # xs) = (finite_floats x \<and> finite_items xs)"
| "finite_members [] = True"
| "finite_members ((k, v) # kvs) = (finite_floats v \<and> finite_members kvs)"



section \<open>Notions used in the proofs about the codec\<close>

text \<open>What may follow a value in a JSON text: nothing, or a comma or a closing bracket.\<close>

definition delim :: "string \<Rightarrow> bool" where
  "delim r = (r = [] \<or> hd r = CHR '','' \<or> hd r = CHR '']'' \<or> hd r = CHR ''}'')"

text \<open>The text does not go on with a digit.\<close>

definition no_digit_next :: "string \<Rightarrow> bool" where
  "no_digit_next r = (r = [] \<or> \<not> is_digit (hd r))"

text \<open>A character that stands for itself inside a JSON string.\<close>

definition plain_char :: "char \<Rightarrow> bool" where
  "plain_char c = (c \<noteq> dquote \<and> c \<noteq> bslash \<and> 32 \<le> (of_char c :: nat))"

text \<open>
  The pieces an encoded string is made of: a character that stands for itself, a
  one-letter escape, a \<^verbatim>\<open>\u\<close> escape with four hexadecimal digits.
\<close>

definition escape_unit :: "string \<Rightarrow> bool" where
  "escape_unit u =
     ((\<exists>c. u = [c] \<and> plain_char c) \<or>
      (\<exists>e. u = [bslash, e] \<and> backslash_char e \<noteq> None) \<or>
      (\<exists>a b c d. u = [bslash, CHR ''u'', a, b, c, d] \<and> hex_val a \<noteq> None \<and>
         hex_val b \<noteq> None \<and> hex_val c \<noteq> None \<and> hex_val d \<noteq> None))"

text \<open>
  The text begins like a value (no whitespace, no closing bracket), or like a number.
\<close>

definition starts_value :: "string \<Rightarrow> bool" where
  "starts_value s = (s \<noteq> [] \<and> \<not> is_json_ws (hd s) \<and> hd s \<noteq> CHR '']'' \<and> hd s \<noteq> CHR ''}'')"

definition starts_number :: "string \<Rightarrow> bool" where
  "starts_number s = (s \<noteq> [] \<and> (hd s = CHR ''-'' \<or> is_digit (hd s)))"


section \<open>Integers as text: printing and reading back\<close>

lemma of_char_digit_char: "(of_char (digit_char d) :: nat) = 48 + d mod 10"
proof -
  have "d mod 10 < 10" by simp
  then have "(48 + d mod 10) mod 256 = 48 + d mod 10" by simp
  then show ?thesis by (simp add: digit_char_def)
qed

lemma is_digit_digit_char: "is_digit (digit_char d)"
  by (simp add: is_digit_def of_char_digit_char)

lemma digit_val_digit_char: "digit_val (digit_char d) = d mod 10"
  by (simp add: digit_val_def of_char_digit_char)

lemma str_nat_digits: "str_nat n \<noteq> [] \<and> list_all is_digit (str_nat n)"
proof (induction n rule: str_nat.induct)
  case (1 n)
  show ?case
  proof (cases "n < 10")
    case True
    then show ?thesis
      by (subst str_nat.simps, subst (2) str_nat.simps) (simp add: is_digit_digit_char)
  next
    case False
    then show ?thesis using 1
      by (subst str_nat.simps, subst (2) str_nat.simps) (simp add: is_digit_digit_char)
  qed
qed

lemma py_digits_snoc:
  "list_all is_digit ds \<Longrightarrow> is_digit c \<Longrightarrow>
   py_digits acc (ds @ [c]) =
     (case py_digits acc ds of None \<Rightarrow> None | Some a \<Rightarrow> Some (10 * a + digit_val c))"
  by (induction acc ds rule: py_digits.induct) auto

lemma py_digits_str_nat: "py_digits 0 (str_nat n) = Some n"
proof (induction n rule: str_nat.induct)
  case (1 n)
  show ?case
  proof (cases "n < 10")
    case True
    then show ?thesis
      by (subst str_nat.simps) (simp add: is_digit_digit_char digit_val_digit_char)
  next
    case False
    then have "py_digits 0 (str_nat n) = py_digits 0 (str_nat (n div 10) @ [digit_char (n mod 10)])"
      by (subst str_nat.simps) simp
    also have "\<dots> = Some (10 * (n div 10) + digit_val (digit_char (n mod 10)))"
      using 1 False str_nat_digits[of "n div 10"]
      by (simp add: py_digits_snoc is_digit_digit_char)
    finally show ?thesis by (simp add: digit_val_digit_char)
  qed
qed

lemma py_nat_literal_str_nat: "py_nat_literal (str_nat n) = Some n"
  using str_nat_digits[of n] py_digits_str_nat[of n]
  by (cases "str_nat n") (simp_all add: py_nat_literal_def)

lemma is_digit_not_space: "is_digit c \<Longrightarrow> \<not> is_space c"
  by (auto simp: is_digit_def is_space_def Let_def)

lemma is_digit_not_int_space: "is_digit c \<Longrightarrow> \<not> is_int_space c"
  by (auto simp: is_digit_def is_int_space_def Let_def)

lemma strip_unchanged:
  assumes "s \<noteq> []" "\<not> P (hd s)" "\<not> P (last s)"
  shows "rev (dropWhile P (rev (dropWhile P s))) = s"
proof -
  have 1: "dropWhile P s = s" using assms by (cases s) auto
  have "rev s \<noteq> []" "\<not> P (hd (rev s))" using assms by (auto simp: hd_rev)
  then have 2: "dropWhile P (rev s) = rev s" by (cases "rev s") auto
  show ?thesis by (simp add: 1 2)
qed

lemma py_strip_unchanged:
  assumes "s \<noteq> []" "\<not> is_space (hd s)" "\<not> is_space (last s)"
  shows "py_strip s = s"
  using strip_unchanged[OF assms] by (simp add: py_strip_def)

lemma int_strip_unchanged:
  assumes "s \<noteq> []" "\<not> is_int_space (hd s)" "\<not> is_int_space (last s)"
  shows "int_strip s = s"
  using strip_unchanged[OF assms] by (simp add: int_strip_def)

lemma last_str_nat: "is_digit (last (str_nat n))"
  using str_nat_digits[of n] by (cases "str_nat n" rule: rev_cases) auto

lemma hd_str_nat: "is_digit (hd (str_nat n))"
  using str_nat_digits[of n] by (cases "str_nat n") auto

lemma py_strip_str_int: "py_strip (py_str_int n) = py_str_int n"
proof (rule py_strip_unchanged)
  show "py_str_int n \<noteq> []" using str_nat_digits by (simp add: py_str_int_def)
  show "\<not> is_space (hd (py_str_int n))"
    using hd_str_nat[of "nat n"] by (auto simp: py_str_int_def is_space_def dest: is_digit_not_space)
  show "\<not> is_space (last (py_str_int n))"
    using last_str_nat[of "nat n"] last_str_nat[of "nat (- n)"] str_nat_digits[of "nat (- n)"]
    by (auto simp: py_str_int_def dest: is_digit_not_space)
qed

lemma int_strip_str_int: "int_strip (py_str_int n) = py_str_int n"
proof (rule int_strip_unchanged)
  show "py_str_int n \<noteq> []" using str_nat_digits by (simp add: py_str_int_def)
  show "\<not> is_int_space (hd (py_str_int n))"
    using hd_str_nat[of "nat n"]
    by (auto simp: py_str_int_def is_int_space_def dest: is_digit_not_int_space)
  show "\<not> is_int_space (last (py_str_int n))"
    using last_str_nat[of "nat n"] last_str_nat[of "nat (- n)"] str_nat_digits[of "nat (- n)"]
    by (auto simp: py_str_int_def dest: is_digit_not_int_space)
qed

lemma py_int_str_int: "py_int (py_str_int n) = Inr n"
proof (cases "n < 0")
  case True
  then show ?thesis
    using int_strip_str_int[of n]
    by (simp add: py_int_def py_str_int_def py_nat_literal_str_nat)
next
  case False
  obtain c cs where cs: "str_nat (nat n) = c # cs"
    using str_nat_digits[of "nat n"] by (cases "str_nat (nat n)") auto
  then have "is_digit c" using hd_str_nat[of "nat n"] by simp
  then have "c \<noteq> CHR ''-''" "c \<noteq> CHR ''+''" by (auto simp: is_digit_def)
  then show ?thesis
    using False cs int_strip_str_int[of n] py_nat_literal_str_nat[of "nat n"]
    by (simp add: py_int_def py_str_int_def)
qed

lemma py_int_error: "py_int s = Inl e \<Longrightarrow> e = ValueError"
  by (auto simp: py_int_def split: list.splits if_splits option.splits)

lemma log_api_usage_funpow_count:
  "usage_count ((log_api_usage ^^ N) p) = usage_count p + int N"
  by (induction N) (simp_all add: log_api_usage_def)

lemma log_api_usage_funpow_file:
  assumes "0 < N"
  shows "usage_file ((log_api_usage ^^ N) p) = Some (py_str_int (usage_count p + int N))"
proof (cases N)
  case 0
  then show ?thesis using assms by simp
next
  case (Suc k)
  have a: "usage_count ((log_api_usage ^^ k) p) + 1 = usage_count p + int N"
    using Suc by (simp add: log_api_usage_funpow_count)
  have "usage_file ((log_api_usage ^^ N) p) =
          Some (py_str_int (usage_count ((log_api_usage ^^ k) p) + 1))"
    using Suc by (simp add: log_api_usage_def)
  then show ?thesis by (simp only: a)
qed

section \<open>The usage counter\<close>

text \<open>
  Claim C7. When the usage-count file is absent, or holds nothing but whitespace, the
  count read at start-up is 0; after \<open>N\<close> calls of \<^verbatim>\<open>log_api_usage\<close> (\<open>N\<close> at least 1) the
  counter is \<open>N\<close> and the file holds the decimal text of \<open>N\<close>, which the next start-up
  reads back as \<open>N\<close>.
\<close>

theorem usage_count_after_logged_calls:
  assumes "file = None \<or> file = Some content \<and> py_strip content = []" and "0 < N"
  shows "read_usage_count file = Inr 0 \<and>
         usage_count ((log_api_usage ^^ N) (start file inputs 0)) = int N \<and>
         usage_file ((log_api_usage ^^ N) (start file inputs 0)) = Some (py_str_int (int N)) \<and>
         read_usage_count (Some (py_str_int (int N))) = Inr (int N)"
proof -
  have 1: "read_usage_count file = Inr 0"
    using assms(1) by (auto simp: read_usage_count_def)
  have 2: "usage_count ((log_api_usage ^^ N) (start file inputs 0)) = int N"
    by (simp add: log_api_usage_funpow_count start_def)
  have 3: "usage_file ((log_api_usage ^^ N) (start file inputs 0)) = Some (py_str_int (int N))"
    using assms(2) by (simp add: log_api_usage_funpow_file start_def)
  have "py_str_int (int N) \<noteq> []" using str_nat_digits by (simp add: py_str_int_def)
  then have 4: "read_usage_count (Some (py_str_int (int N))) = Inr (int N)"
    by (simp add: read_usage_count_def py_strip_str_int py_int_str_int)
  show ?thesis using 1 2 3 4 by simp
qed

lemma py_str_int_3: "py_str_int 3 = ''3''" by code_simp

theorem usage_count_after_logged_calls_witness:
  "read_usage_count None = Inr 0 \<and>
   usage_count ((log_api_usage ^^ 3) (start None [] 0)) = 3 \<and>
   usage_file ((log_api_usage ^^ 3) (start None [] 0)) = Some ''3'' \<and>
   read_usage_count (Some ''3'') = Inr 3"
  using usage_count_after_logged_calls[of None "[]" 3 "[]"] py_str_int_3 by simp

text \<open>
  Claim C8. When the file exists and its stripped content is not empty and not an integer
  literal, reading the count raises \<^verbatim>\<open>ValueError\<close>, nothing catches it, and the process
  ends there: nothing has been printed, no input has been read, the chat service has not
  been called, and the exit status is 1.
\<close>

theorem corrupt_usage_file_fails_fast:
  assumes "py_strip content \<noteq> []" and "py_int (py_strip content) = Inl e"
  shows "read_usage_count (Some content) = Inl ValueError \<and>
         run_program ops chat a (Some content) inputs =
           (Uncaught ValueError, start (Some content) inputs 0) \<and>
         exit_status (fst (run_program ops chat a (Some content) inputs)) = 1"
proof -
  have "e = ValueError" using assms(2) by (rule py_int_error)
  then have 1: "read_usage_count (Some content) = Inl ValueError"
    using assms by (simp add: read_usage_count_def)
  then show ?thesis by (simp add: run_program_def exit_status_def)
qed

lemma strip_abc: "py_strip ''abc'' = ''abc''" by code_simp
lemma int_abc: "py_int ''abc'' = Inl ValueError" by code_simp

theorem corrupt_usage_file_fails_fast_witness:
  "read_usage_count (Some ''abc'') = Inl ValueError \<and>
   run_program sample_ops (\<lambda>prompt. Inr ''[]'') (sample_args Json) (Some ''abc'') [] =
     (Uncaught ValueError, start (Some ''abc'') [] 0) \<and>
   exit_status (fst (run_program sample_ops (\<lambda>prompt. Inr ''[]'') (sample_args Json) (Some ''abc'') [])) = 1"
  using corrupt_usage_file_fails_fast[of "''abc''" ValueError sample_ops "\<lambda>prompt. Inr ''[]''" "sample_args Json" "[]"]
    strip_abc int_abc by (simp add: exit_status_def)

section \<open>The decoder accepts what the encoder prints\<close>

subsection \<open>Numbers\<close>

lemma delim_no_digit: "delim r \<Longrightarrow> no_digit_next r"
  by (auto simp: delim_def no_digit_next_def is_digit_def)

lemma takeWhile_digits:
  "list_all is_digit ds \<Longrightarrow> no_digit_next r \<Longrightarrow> takeWhile is_digit (ds @ r) = ds"
  by (induction ds) (auto simp: no_digit_next_def takeWhile_eq_Nil_iff intro: hd_in_set)

lemma dropWhile_digits:
  "list_all is_digit ds \<Longrightarrow> no_digit_next r \<Longrightarrow> dropWhile is_digit (ds @ r) = r"
  by (induction ds) (auto simp: no_digit_next_def dropWhile_eq_self_iff)

lemma str_nat_0: "str_nat 0 = ''0''"
  by code_simp

lemma digit_char_0: "digit_char 0 = CHR ''0''"
  by code_simp

lemma digit_char_eq_0:
  assumes "d < 10"
  shows "digit_char d = CHR ''0'' \<longleftrightarrow> d = 0"
proof
  assume "digit_char d = CHR ''0''"
  then have "(of_char (digit_char d) :: nat) = of_char (CHR ''0'')" by simp
  then show "d = 0" using assms by (simp add: of_char_digit_char)
next
  assume "d = 0"
  then show "digit_char d = CHR ''0''" by (simp add: digit_char_0)
qed

lemma hd_str_nat_nonzero: "0 < n \<Longrightarrow> hd (str_nat n) \<noteq> CHR ''0''"
proof (induction n rule: str_nat.induct)
  case (1 n)
  show ?case
  proof (cases "n < 10")
    case True
    then show ?thesis using 1(2) by (subst str_nat.simps) (simp add: digit_char_eq_0)
  next
    case False
    then have "0 < n div 10" by simp
    then have "hd (str_nat (n div 10)) \<noteq> CHR ''0''" using 1(1) False by simp
    then show ?thesis using False str_nat_digits[of "n div 10"]
      by (subst str_nat.simps) simp
  qed
qed

lemma match_integer_str_nat:
  assumes "no_digit_next r" and "sg = [] \<or> sg = ''-''"
  shows "match_integer (sg @ str_nat k @ r) = Some (sg @ str_nat k, r)"
proof -
  obtain d ds where ds: "str_nat k = d # ds" using str_nat_digits[of k] by (cases "str_nat k") auto
  have dd: "is_digit d" "list_all is_digit ds" using str_nat_digits[of k] ds by auto
  then have nm: "d \<noteq> CHR ''-''" by (auto simp: is_digit_def)
  have dr: "drop (length sg) (sg @ str_nat k @ r) = d # ds @ r" using ds by simp
  have sgq: "(if sg @ str_nat k @ r \<noteq> [] \<and> hd (sg @ str_nat k @ r) = CHR ''-'' then ''-'' else []) = sg"
    using assms(2) ds nm by auto
  show ?thesis
  proof (cases "k = 0")
    case True
    then have "d = CHR ''0''" "ds = []" using ds str_nat_0 by auto
    then show ?thesis using sgq dr ds by (simp add: match_integer_def Let_def)
  next
    case False
    then have "d \<noteq> CHR ''0''" using hd_str_nat_nonzero[of k] ds by simp
    then show ?thesis using sgq dr ds dd assms(1)
      by (simp add: match_integer_def Let_def takeWhile_digits dropWhile_digits)
  qed
qed

lemma match_frac_delim: "delim r \<Longrightarrow> match_frac r = None"
  by (auto simp: match_frac_def delim_def split: list.splits)

lemma match_exp_delim: "delim r \<Longrightarrow> match_exp r = None"
  by (auto simp: match_exp_def delim_def split: list.splits)

lemma py_int_signed:
  "py_int (CHR ''-'' # str_nat k) = Inr (- int k)"
proof -
  have "int_strip (CHR ''-'' # str_nat k) = CHR ''-'' # str_nat k"
    using last_str_nat[of k] str_nat_digits[of k]
    by (intro int_strip_unchanged) (auto simp: is_int_space_def dest: is_digit_not_int_space)
  then show ?thesis by (simp add: py_int_def py_nat_literal_str_nat)
qed

lemma py_int_unsigned: "py_int (str_nat k) = Inr (int k)"
  using py_int_str_int[of "int k"] by (simp add: py_str_int_def)

lemma match_number_int:
  assumes "delim r"
  shows "match_number ops (py_str_int n @ r) = Some (PInt n, r)"
proof -
  have nd: "no_digit_next r" using assms by (rule delim_no_digit)
  show ?thesis
  proof (cases "n < 0")
    case True
    then have "match_integer (py_str_int n @ r) = Some (py_str_int n, r)"
      using match_integer_str_nat[OF nd, of "''-''" "nat (- n)"] by (simp add: py_str_int_def)
    then show ?thesis using assms py_int_str_int[of n]
      by (simp add: match_number_def match_frac_delim match_exp_delim)
  next
    case False
    then have "match_integer (py_str_int n @ r) = Some (py_str_int n, r)"
      using match_integer_str_nat[OF nd, of "[]" "nat n"] by (simp add: py_str_int_def)
    then show ?thesis using assms py_int_str_int[of n]
      by (simp add: match_number_def match_frac_delim match_exp_delim)
  qed
qed

lemma match_frac_digits:
  assumes "ds \<noteq> []" and "list_all is_digit ds" and "no_digit_next r"
  shows "match_frac (CHR ''.'' # ds @ r) = Some (CHR ''.'' # ds, r)"
proof -
  obtain d ds' where "ds = d # ds'" using assms(1) by (cases ds) auto
  then show ?thesis using assms(2,3)
    by (simp add: match_frac_def takeWhile_digits dropWhile_digits)
qed

lemma match_frac_e: "match_frac (CHR ''e'' # r) = None"
  by (simp add: match_frac_def split: list.splits)

lemma match_exp_digits:
  assumes "ds \<noteq> []" and "list_all is_digit ds" and "no_digit_next r"
    and "s = CHR ''-'' \<or> s = CHR ''+''"
  shows "match_exp (CHR ''e'' # s # ds @ r) = Some (CHR ''e'' # s # ds, r)"
proof -
  obtain d ds' where "ds = d # ds'" using assms(1) by (cases ds) auto
  then show ?thesis using assms(2,3,4)
    by (auto simp: match_exp_def Let_def takeWhile_digits dropWhile_digits)
qed

text \<open>The three parts of the text of a finite float.\<close>

lemma render_float_text_parts:
  "\<exists>sg fr ex. render_float_text t = sg @ str_nat (ft_int t) @ fr @ ex \<and>
     (sg = [] \<or> sg = ''-'') \<and>
     (fr = [] \<or> (\<exists>ds. fr = CHR ''.'' # ds \<and> ds \<noteq> [] \<and> list_all is_digit ds)) \<and>
     (ex = [] \<or> (\<exists>s ds. ex = CHR ''e'' # s # ds \<and> (s = CHR ''-'' \<or> s = CHR ''+'') \<and>
                           ds \<noteq> [] \<and> list_all is_digit ds))"
proof -
  let ?sg = "if ft_negative t then ''-'' else []"
  let ?fr = "if ft_frac t = [] then [] else CHR ''.'' # map digit_char (ft_frac t)"
  let ?ex = "case ft_exp t of None \<Rightarrow> []
             | Some x \<Rightarrow> CHR ''e'' # (if x < 0 then CHR ''-'' else CHR ''+'') #
                 (if \<bar>x\<bar> < 10 then ''0'' else []) @ str_nat (nat \<bar>x\<bar>)"
  have 1: "render_float_text t = ?sg @ str_nat (ft_int t) @ ?fr @ ?ex"
    by (simp add: render_float_text_def)
  have 2: "?sg = [] \<or> ?sg = ''-''" by simp
  have 3: "?fr = [] \<or> (\<exists>ds. ?fr = CHR ''.'' # ds \<and> ds \<noteq> [] \<and> list_all is_digit ds)"
    by (auto simp: list_all_iff is_digit_digit_char)
  have z: "is_digit CHR ''0''" by (simp add: is_digit_def)
  have 4: "?ex = [] \<or> (\<exists>s ds. ?ex = CHR ''e'' # s # ds \<and> (s = CHR ''-'' \<or> s = CHR ''+'') \<and>
                           ds \<noteq> [] \<and> list_all is_digit ds)"
    using str_nat_digits z by (cases "ft_exp t") auto
  show ?thesis using 1 2 3 4 by blast
qed

lemma match_number_float:
  assumes "delim r"
  shows "\<exists>v. match_number ops (render_float_text t @ r) = Some (v, r)"
proof -
  obtain sg fr ex where p:
    "render_float_text t = sg @ str_nat (ft_int t) @ fr @ ex"
    "sg = [] \<or> sg = ''-''"
    "fr = [] \<or> (\<exists>ds. fr = CHR ''.'' # ds \<and> ds \<noteq> [] \<and> list_all is_digit ds)"
    "ex = [] \<or> (\<exists>s ds. ex = CHR ''e'' # s # ds \<and> (s = CHR ''-'' \<or> s = CHR ''+'') \<and>
                           ds \<noteq> [] \<and> list_all is_digit ds)"
    using render_float_text_parts[of t] by blast
  have nd: "no_digit_next r" using assms by (rule delim_no_digit)
  have nex: "no_digit_next (ex @ r)"
    using p(4) nd by (auto simp: no_digit_next_def is_digit_def)
  have nfr: "no_digit_next (fr @ ex @ r)"
    using p(3) nex by (auto simp: no_digit_next_def is_digit_def)
  have mi: "match_integer (render_float_text t @ r) = Some (sg @ str_nat (ft_int t), fr @ ex @ r)"
    using match_integer_str_nat[OF nfr p(2), of "ft_int t"] p(1) by simp
  have mf: "match_frac (fr @ ex @ r) = (if fr = [] then None else Some (fr, ex @ r))"
  proof (cases "fr = []")
    case True
    then show ?thesis using p(4) assms by (auto simp: match_frac_e match_frac_delim)
  next
    case False
    then show ?thesis using p(3) nex by (auto simp: match_frac_digits)
  qed
  have me: "match_exp (ex @ r) = (if ex = [] then None else Some (ex, r))"
  proof (cases "ex = []")
    case True
    then show ?thesis using assms by (simp add: match_exp_delim)
  next
    case False
    then show ?thesis using p(4) nd by (auto simp: match_exp_digits)
  qed
  have pi: "\<exists>n. py_int (sg @ str_nat (ft_int t)) = Inr n"
    using p(2) py_int_signed[of "ft_int t"] py_int_unsigned[of "ft_int t"] by auto
  show ?thesis
    using mi mf me pi by (auto simp: match_number_def)
qed

subsection \<open>Strings\<close>

lemma hex_val_hex_char: "hex_val (hex_char d) = Some (d mod 16)"
proof -
  let ?k = "d mod 16"
  have k: "?k < 16" by simp
  show ?thesis
  proof (cases "?k < 10")
    case True
    then have "(48 + ?k) mod 256 = 48 + ?k" by simp
    then show ?thesis using True by (simp add: hex_val_def hex_char_def Let_def)
  next
    case False
    then have "(87 + ?k) mod 256 = 87 + ?k" using k by simp
    then show ?thesis using False k by (simp add: hex_val_def hex_char_def Let_def)
  qed
qed

lemma escape_unit_escape_u: "escape_unit (escape_u n)"
  by (simp add: escape_unit_def escape_u_def hex_val_hex_char)

lemma escape_char_units:
  "\<exists>us. list_all escape_unit us \<and> escape_char n = concat us"
proof (cases "n = 92 \<or> n = 34 \<or> n = 8 \<or> n = 12 \<or> n = 10 \<or> n = 13 \<or> n = 9")
  case True
  then have "\<exists>e. escape_char n = [bslash, e] \<and> backslash_char e \<noteq> None"
    by (elim disjE) (simp_all add: escape_char_def backslash_char_def)
  then have "escape_unit (escape_char n)"
    unfolding escape_unit_def by blast
  then have "list_all escape_unit [escape_char n] \<and> escape_char n = concat [escape_char n]"
    by simp
  then show ?thesis by blast
next
  case ns: False
  show ?thesis
  proof (cases "32 \<le> n \<and> n \<le> 126")
    case True
    have m: "n mod 256 = n" using True by simp
    have "char_of n \<noteq> dquote"
    proof
      assume "char_of n = dquote"
      then have "(of_char (char_of n) :: nat) = of_char dquote" by simp
      then show False using m ns by simp
    qed
    moreover have "char_of n \<noteq> bslash"
    proof
      assume "char_of n = bslash"
      then have "(of_char (char_of n) :: nat) = of_char bslash" by simp
      then show False using m ns by simp
    qed
    ultimately have "plain_char (char_of n)" using m True by (simp add: plain_char_def)
    moreover have "escape_char n = [char_of n]" using True ns by (simp add: escape_char_def)
    ultimately have "list_all escape_unit [[char_of n]] \<and> escape_char n = concat [[char_of n]]"
      by (simp add: escape_unit_def)
    then show ?thesis by blast
  next
    case np: False
    show ?thesis
    proof (cases "n < 65536")
      case True
      then have "escape_char n = escape_u n" using ns by (simp add: escape_char_def np)
      then have "list_all escape_unit [escape_u n] \<and> escape_char n = concat [escape_u n]"
        by (simp add: escape_unit_escape_u)
      then show ?thesis by blast
    next
      case False
      let ?h = "escape_u (55296 + ((n - 65536) div 1024) mod 1024)"
      let ?l = "escape_u (56320 + (n - 65536) mod 1024)"
      have "escape_char n = ?h @ ?l" using ns by (simp add: escape_char_def np False)
      then have "list_all escape_unit [?h, ?l] \<and> escape_char n = concat [?h, ?l]"
        by (simp add: escape_unit_escape_u)
      then show ?thesis by blast
    qed
  qed
qed

lemma escaped_string_units:
  "\<exists>us. list_all escape_unit us \<and> concat (map escape_char s) = concat us"
proof (induction s)
  case Nil
  have "list_all escape_unit [] \<and> concat (map escape_char []) = concat []" by simp
  then show ?case by blast
next
  case (Cons n s)
  obtain us where us: "list_all escape_unit us" "concat (map escape_char s) = concat us"
    using Cons by blast
  obtain vs where vs: "list_all escape_unit vs" "escape_char n = concat vs"
    using escape_char_units[of n] by blast
  have "list_all escape_unit (vs @ us) \<and> concat (map escape_char (n # s)) = concat (vs @ us)"
    using us vs by simp
  then show ?case by blast
qed

lemma decode_uXXXX_hex:
  assumes "hex_val a \<noteq> None" "hex_val b \<noteq> None" "hex_val c \<noteq> None" "hex_val d \<noteq> None"
  shows "\<exists>uni. decode_uXXXX (a # b # c # d # r) = Some (uni, r)"
  using assms by (auto simp: decode_uXXXX_def)

lemma scanstring_units:
  "list_all escape_unit us \<Longrightarrow> \<exists>s. scanstring (concat us @ dquote # rest) = Some (s, rest)"
proof (induction "length us" arbitrary: us rule: less_induct)
  case less
  show ?case
  proof (cases us)
    case Nil
    then show ?thesis by (simp add: scanstring.simps)
  next
    case (Cons u us')
    let ?X = "concat us' @ dquote # rest"
    have u: "escape_unit u" and us': "list_all escape_unit us'" using less(2) Cons by auto
    obtain s' where s': "scanstring ?X = Some (s', rest)"
      using less(1)[of us'] us' Cons by auto
    have "(\<exists>c. u = [c] \<and> plain_char c) \<or>
          (\<exists>e. u = [bslash, e] \<and> backslash_char e \<noteq> None) \<or>
          (\<exists>a b c d. u = [bslash, CHR ''u'', a, b, c, d] \<and> hex_val a \<noteq> None \<and>
             hex_val b \<noteq> None \<and> hex_val c \<noteq> None \<and> hex_val d \<noteq> None)"
      using u unfolding escape_unit_def .
    then show ?thesis
    proof (elim disjE exE conjE)
      fix c
      assume plain: "u = [c]" "plain_char c"
      then have "scanstring (concat us @ dquote # rest) = cons_result (of_char c) (scanstring ?X)"
        using Cons by (simp add: scanstring.simps plain_char_def)
      then show ?thesis using s' by (simp add: cons_result_def)
    next
      fix e
      assume simple: "u = [bslash, e]" "backslash_char e \<noteq> None"
      then obtain ch where ch: "backslash_char e = Some ch" by auto
      have "e \<noteq> CHR ''u''" using simple(2) by (auto simp: backslash_char_def)
      then have "scanstring (concat us @ dquote # rest) = cons_result ch (scanstring ?X)"
        using Cons simple(1) ch by (simp add: scanstring.simps)
      then show ?thesis using s' by (simp add: cons_result_def)
    next
      fix a b c d
      assume uni: "u = [bslash, CHR ''u'', a, b, c, d]" "hex_val a \<noteq> None"
        "hex_val b \<noteq> None" "hex_val c \<noteq> None" "hex_val d \<noteq> None"
      obtain v where v: "decode_uXXXX (a # b # c # d # ?X) = Some (v, ?X)"
        using decode_uXXXX_hex[OF uni(2-5)] by blast
      have sc: "scanstring (concat us @ dquote # rest) =
                  (case unicode_escape (a # b # c # d # ?X) of None \<Rightarrow> None
                   | Some (ch, r') \<Rightarrow> cons_result ch (scanstring r'))"
        using Cons uni(1) by (simp add: scanstring.simps)
      show ?thesis
      proof (cases "55296 \<le> v \<and> v \<le> 56319 \<and> take 2 ?X = [bslash, CHR ''u'']")
        case False
        then have "unicode_escape (a # b # c # d # ?X) = Some (v, ?X)"
          using v by (auto simp: unicode_escape_def)
        then show ?thesis using sc s' by (simp add: cons_result_def)
      next
        case True
        then have t2: "take 2 ?X = [bslash, CHR ''u'']" by simp
        have "us' \<noteq> []" using t2 by auto
        then obtain u2 us'' where u2: "us' = u2 # us''" by (cases us') auto
        have eu2: "escape_unit u2" and us'': "list_all escape_unit us''" using us' u2 by auto
        have "\<exists>a2 b2 c2 d2. u2 = [bslash, CHR ''u'', a2, b2, c2, d2] \<and> hex_val a2 \<noteq> None \<and>
                 hex_val b2 \<noteq> None \<and> hex_val c2 \<noteq> None \<and> hex_val d2 \<noteq> None"
          using eu2 t2 u2 unfolding escape_unit_def
          by (auto simp: plain_char_def backslash_char_def)
        then obtain a2 b2 c2 d2 where h2: "u2 = [bslash, CHR ''u'', a2, b2, c2, d2]"
          "hex_val a2 \<noteq> None" "hex_val b2 \<noteq> None" "hex_val c2 \<noteq> None" "hex_val d2 \<noteq> None"
          by blast
        let ?Y = "concat us'' @ dquote # rest"
        have dX: "drop 2 ?X = a2 # b2 # c2 # d2 # ?Y" using u2 h2(1) by simp
        obtain v2 where v2: "decode_uXXXX (drop 2 ?X) = Some (v2, ?Y)"
          using decode_uXXXX_hex[OF h2(2-5), of ?Y] dX by auto
        obtain s'' where s'': "scanstring ?Y = Some (s'', rest)"
          using less(1)[of us''] us'' Cons u2 by auto
        have "unicode_escape (a # b # c # d # ?X) =
                (if 56320 \<le> v2 \<and> v2 \<le> 57343
                 then Some (65536 + ((v - 55296) * 1024 + (v2 - 56320)), ?Y)
                 else Some (v, ?X))"
          using v v2 True by (simp add: unicode_escape_def)
        then show ?thesis using sc s' s'' by (auto simp: cons_result_def)
      qed
    qed
  qed
qed

lemma scanstring_encoded:
  "\<exists>s'. scanstring (tl (encode_string s) @ rest) = Some (s', rest)"
proof -
  obtain us where us: "list_all escape_unit us" "concat (map escape_char s) = concat us"
    using escaped_string_units[of s] by blast
  have "tl (encode_string s) @ rest = concat us @ dquote # rest"
    using us(2) by (simp add: encode_string_def)
  then show ?thesis using scanstring_units[OF us(1), of rest] by simp
qed

subsection \<open>Values\<close>

lemma starts_number_value: "starts_number s \<Longrightarrow> starts_value s"
  by (auto simp: starts_number_def starts_value_def is_json_ws_def is_digit_def)

lemma starts_number_append: "starts_number s \<Longrightarrow> starts_number (s @ r)"
  by (auto simp: starts_number_def)

lemma starts_value_append: "starts_value s \<Longrightarrow> starts_value (s @ r)"
  by (auto simp: starts_value_def)

lemma starts_number_str_int: "starts_number (py_str_int n)"
  using str_nat_digits[of "nat n"] hd_str_nat[of "nat n"]
  by (auto simp: starts_number_def py_str_int_def)

lemma starts_number_float_text: "starts_number (render_float_text t)"
proof -
  obtain sg fr ex where p: "render_float_text t = sg @ str_nat (ft_int t) @ fr @ ex"
    "sg = [] \<or> sg = ''-''"
    using render_float_text_parts[of t] by blast
  show ?thesis
    using p str_nat_digits[of "ft_int t"] hd_str_nat[of "ft_int t"]
    by (auto simp: starts_number_def)
qed

lemma skip_ws_id: "s = [] \<or> \<not> is_json_ws (hd s) \<Longrightarrow> skip_ws s = s"
  by (cases s) (auto simp: skip_ws_def)

lemma skip_ws_value: "starts_value s \<Longrightarrow> skip_ws s = s"
  by (simp add: skip_ws_id starts_value_def)

lemma skip_ws_space: "skip_ws (CHR '' '' # s) = skip_ws s"
  by (simp add: skip_ws_def is_json_ws_def)

lemma skip_ws_delims [simp]:
  "skip_ws (CHR '','' # s) = CHR '','' # s"
  "skip_ws (CHR '']'' # s) = CHR '']'' # s"
  "skip_ws (CHR ''}'' # s) = CHR ''}'' # s"
  "skip_ws (CHR '':'' # s) = CHR '':'' # s"
  "skip_ws (dquote # s) = dquote # s"
  by (simp_all add: skip_ws_def is_json_ws_def)

lemma scan_once_number:
  assumes "starts_number cs" and "match_number ops cs = Some m"
  shows "scan_once ops c (Suc n) cs = Some m"
proof -
  obtain x xs where cs: "cs = x # xs" using assms(1) by (cases cs) (auto simp: starts_number_def)
  have x: "x = CHR ''-'' \<or> is_digit x" using assms(1) cs by (simp add: starts_number_def)
  then have "x \<noteq> dquote" "x \<noteq> CHR ''{''" "x \<noteq> CHR ''[''" "x \<noteq> CHR ''n''" "x \<noteq> CHR ''t''"
    "x \<noteq> CHR ''f''"
    by (auto simp: is_digit_def)
  then show ?thesis using cs assms(2) by simp
qed

lemma scan_once_string:
  "scan_once ops c (Suc n) (dquote # r) =
     (case scanstring r of None \<Rightarrow> None | Some (s, r') \<Rightarrow> Some (PStr s, r'))"
  by simp

lemma scan_once_list:
  "scan_once ops c (Suc n) (CHR ''['' # r) =
     (if skip_ws r \<noteq> [] \<and> hd (skip_ws r) = CHR '']'' then Some (PList [], tl (skip_ws r))
      else (case scan_items ops c n (skip_ws r) of
              None \<Rightarrow> None
            | Some (vs, r') \<Rightarrow> Some (PList vs, r')))"
  by (simp add: Let_def)

lemma scan_once_dict:
  "scan_once ops c (Suc n) (CHR ''{'' # r) =
     (if skip_ws r \<noteq> [] \<and> hd (skip_ws r) = CHR ''}'' then Some (PDict [], tl (skip_ws r))
      else (case scan_members ops c n (skip_ws r) of
              None \<Rightarrow> None
            | Some (pairs, r') \<Rightarrow> Some (PDict (dict_of_pairs pairs), r')))"
  by (simp add: Let_def)

lemma encode_string_quote: "encode_string s = dquote # tl (encode_string s)"
  by (simp add: encode_string_def)

lemma starts_value_dumps: "finite_floats v \<Longrightarrow> starts_value (json_dumps ops v)"
proof (cases v)
  case (PInt n)
  then show ?thesis by (simp add: starts_number_value starts_number_str_int)
next
  case (PFloat f)
  assume "finite_floats v"
  then obtain m e where "f = FFinite m e" using PFloat by (cases f) auto
  then show ?thesis using PFloat
    by (simp add: floatstr_def starts_number_value starts_number_float_text)
next
  case (PStr s)
  then show ?thesis by (simp add: starts_value_def encode_string_def is_json_ws_def)
qed (auto simp: starts_value_def is_json_ws_def)

lemma delim_simps [simp]:
  "delim []" "delim (CHR '','' # s)" "delim (CHR '']'' # s)" "delim (CHR ''}'' # s)"
  by (simp_all add: delim_def)

lemma scan_items_step:
  "scan_items ops c (Suc n) cs =
     (case scan_once ops c n cs of
        None \<Rightarrow> None
      | Some (v, r) \<Rightarrow>
          (case skip_ws r of
             [] \<Rightarrow> None
           | d # r1 \<Rightarrow>
               if d = CHR '']'' then Some ([v], r1)
               else if d = CHR '','' then
                 (case scan_items ops c n (skip_ws r1) of
                    None \<Rightarrow> None
                  | Some (vs, r2) \<Rightarrow> Some (v # vs, r2))
               else None))"
  by simp

lemma scan_members_step:
  "scan_members ops c (Suc n) (dquote # r) =
     (case scanstring r of
        None \<Rightarrow> None
      | Some (key, r1) \<Rightarrow>
          (case skip_ws r1 of
             [] \<Rightarrow> None
           | d # r2 \<Rightarrow>
               if d \<noteq> CHR '':'' then None
               else
                 (case scan_once ops c n (skip_ws r2) of
                    None \<Rightarrow> None
                  | Some (v, r3) \<Rightarrow>
                      (case skip_ws r3 of
                         [] \<Rightarrow> None
                       | d' # r4 \<Rightarrow>
                           if d' = CHR ''}'' then Some ([(key, v)], r4)
                           else if d' = CHR '','' then
                             (case scan_members ops c n (skip_ws r4) of
                                None \<Rightarrow> None
                              | Some (pairs, r5) \<Rightarrow> Some ((key, v) # pairs, r5))
                           else None))))"
  by simp

lemma starts_value_items:
  "xs \<noteq> [] \<Longrightarrow> finite_items xs \<Longrightarrow> starts_value (dumps_items ops xs)"
proof (cases xs)
  case Nil
  assume "xs \<noteq> []"
  then show ?thesis using Nil by simp
next
  case (Cons x ys)
  assume "finite_items xs"
  then have "starts_value (json_dumps ops x)" using Cons by (simp add: starts_value_dumps)
  then show ?thesis using Cons by (cases ys) (simp_all add: starts_value_append)
qed

lemma dumps_members_quote:
  "kvs \<noteq> [] \<Longrightarrow> \<exists>k r. dumps_members ops kvs = encode_string k @ CHR '':'' # CHR '' '' # r"
proof (cases kvs)
  case Nil
  assume "kvs \<noteq> []"
  then show ?thesis using Nil by simp
next
  case (Cons kv ms)
  obtain k v where "kv = (k, v)" by (cases kv)
  then show ?thesis using Cons by (cases ms) auto
qed

lemma scan_dumps:
  "finite_floats v \<Longrightarrow> length (json_dumps ops v) \<le> n \<Longrightarrow> delim rest \<Longrightarrow>
     \<exists>v'. scan_once ops c n (json_dumps ops v @ rest) = Some (v', rest)"
  "xs \<noteq> [] \<Longrightarrow> finite_items xs \<Longrightarrow> length (dumps_items ops xs) < n \<Longrightarrow>
     \<exists>vs. scan_items ops c n (dumps_items ops xs @ CHR '']'' # rest) = Some (vs, rest)"
  "kvs \<noteq> [] \<Longrightarrow> finite_members kvs \<Longrightarrow> length (dumps_members ops kvs) < n \<Longrightarrow>
     \<exists>ps. scan_members ops c n (dumps_members ops kvs @ CHR ''}'' # rest) = Some (ps, rest)"
proof (induction ops v and ops xs and ops kvs arbitrary: n rest and n rest and n rest
    rule: json_dumps_dumps_items_dumps_members.induct)
  case (1 ops)
  then obtain m where "n = Suc m" by (cases n) auto
  then show ?case by simp
next
  case (2 ops b)
  then obtain m where "n = Suc m" by (cases n) (auto split: if_splits)
  then show ?case by simp
next
  case (3 ops i)
  obtain m where n: "n = Suc m"
    using 3(2) starts_number_str_int[of i] by (cases n) (auto simp: starts_number_def)
  have "match_number ops (py_str_int i @ rest) = Some (PInt i, rest)"
    using 3(3) by (rule match_number_int)
  then show ?case
    using n scan_once_number[OF starts_number_append[OF starts_number_str_int]] by simp
next
  case (4 ops f)
  then obtain m e where f: "f = FFinite m e" by (cases f) auto
  let ?t = "render_float_text (float_repr ops m e)"
  obtain k where n: "n = Suc k"
    using 4(2) f starts_number_float_text[of "float_repr ops m e"]
    by (cases n) (auto simp: starts_number_def floatstr_def)
  obtain v' where "match_number ops (?t @ rest) = Some (v', rest)"
    using match_number_float[OF 4(3)] by blast
  then show ?case
    using n f scan_once_number[OF starts_number_append[OF starts_number_float_text]]
    by (simp add: floatstr_def)
next
  case (5 ops s)
  obtain m where n: "n = Suc m" using 5(2) by (cases n) (auto simp: encode_string_def)
  obtain s' where "scanstring (tl (encode_string s) @ rest) = Some (s', rest)"
    using scanstring_encoded by blast
  then have "scan_once ops c n (dquote # tl (encode_string s) @ rest) = Some (PStr s', rest)"
    using n by (simp add: scan_once_string del: scan_once.simps)
  moreover have "json_dumps ops (PStr s) @ rest = dquote # tl (encode_string s) @ rest"
    by (simp add: encode_string_def)
  ultimately show ?case by (simp only:) blast
next
  case (6 ops xs)
  obtain m where n: "n = Suc m" using 6(3) by (cases n) auto
  have l: "length (dumps_items ops xs) < m" using 6(3) n by simp
  let ?r = "dumps_items ops xs @ CHR '']'' # rest"
  show ?case
  proof (cases "xs = []")
    case True
    then show ?thesis using n by (simp add: scan_once_list del: scan_once.simps)
  next
    case False
    have sv: "starts_value ?r"
      using starts_value_items[OF False] 6(2) by (simp add: starts_value_append)
    obtain vs where "scan_items ops c m ?r = Some (vs, rest)"
      using 6(1)[OF False _ l] 6(2) by auto
    then show ?thesis
      using n sv skip_ws_value[OF sv]
      by (simp add: scan_once_list starts_value_def del: scan_once.simps)
  qed
next
  case (7 ops kvs)
  obtain m where n: "n = Suc m" using 7(3) by (cases n) auto
  have l: "length (dumps_members ops kvs) < m" using 7(3) n by simp
  let ?r = "dumps_members ops kvs @ CHR ''}'' # rest"
  show ?case
  proof (cases "kvs = []")
    case True
    then show ?thesis using n by (simp add: scan_once_dict del: scan_once.simps)
  next
    case False
    obtain k r where "dumps_members ops kvs = encode_string k @ CHR '':'' # CHR '' '' # r"
      using dumps_members_quote[OF False] by blast
    then obtain t where t: "?r = dquote # t" by (simp add: encode_string_def)
    have sk: "skip_ws ?r = ?r" by (simp only: t skip_ws_delims)
    have nb: "hd ?r \<noteq> CHR ''}''" by (simp only: t list.sel) simp
    obtain ps where "scan_members ops c m ?r = Some (ps, rest)"
      using 7(1)[OF False _ l] 7(2) by auto
    then show ?thesis
      using n sk nb by (simp add: scan_once_dict del: scan_once.simps)
  qed
next
  case (8 ops)
  then show ?case by simp
next
  case (9 ops x)
  obtain m where n: "n = Suc m" using 9(4) by (cases n) auto
  have "length (json_dumps ops x) \<le> m" using 9(4) n by simp
  moreover have "finite_floats x" using 9(3) by simp
  ultimately obtain v' where
    "scan_once ops c m (json_dumps ops x @ CHR '']'' # rest) = Some (v', CHR '']'' # rest)"
    using 9(1)[of m "CHR '']'' # rest"] by auto
  then show ?case using n by (simp add: scan_items_step del: scan_items.simps)
next
  case (10 ops x y ys)
  obtain m where n: "n = Suc m" using 10(5) by (cases n) auto
  let ?Z = "dumps_items ops (y # ys) @ CHR '']'' # rest"
  have lx: "length (json_dumps ops x) \<le> m" using 10(5) n by simp
  have lz: "length (dumps_items ops (y # ys)) < m" using 10(5) n by simp
  have fx: "finite_floats x" and fz: "finite_items (y # ys)" using 10(4) by simp_all
  obtain v' where 1:
    "scan_once ops c m (json_dumps ops x @ CHR '','' # CHR '' '' # ?Z) = Some (v', CHR '','' # CHR '' '' # ?Z)"
    using 10(1)[OF fx lx, of "CHR '','' # CHR '' '' # ?Z"] by auto
  have "starts_value ?Z"
    using starts_value_items[of "y # ys" ops] fz by (simp add: starts_value_append)
  then have 2: "skip_ws (CHR '' '' # ?Z) = ?Z" by (simp add: skip_ws_space skip_ws_value)
  obtain vs where 3: "scan_items ops c m ?Z = Some (vs, rest)"
    using 10(2)[OF _ fz lz] by auto
  show ?case using n 1 2 3 by (simp add: scan_items_step del: scan_items.simps)
next
  case (11 ops)
  then show ?case by simp
next
  case (12 ops k v)
  obtain m where n: "n = Suc m" using 12(4) by (cases n) auto
  let ?R = "CHR '':'' # CHR '' '' # json_dumps ops v @ CHR ''}'' # rest"
  have fv: "finite_floats v" using 12(3) by simp
  have lv: "length (json_dumps ops v) \<le> m" using 12(4) n by simp
  obtain k' where 1: "scanstring (tl (encode_string k) @ ?R) = Some (k', ?R)"
    using scanstring_encoded by blast
  have "starts_value (json_dumps ops v @ CHR ''}'' # rest)"
    using starts_value_dumps[OF fv] by (simp add: starts_value_append)
  then have 2: "skip_ws (CHR '' '' # json_dumps ops v @ CHR ''}'' # rest) =
                  json_dumps ops v @ CHR ''}'' # rest"
    by (simp add: skip_ws_space skip_ws_value)
  obtain v' where 3:
    "scan_once ops c m (json_dumps ops v @ CHR ''}'' # rest) = Some (v', CHR ''}'' # rest)"
    using 12(1)[OF fv lv, of "CHR ''}'' # rest"] by auto
  have "scan_members ops c n (dquote # tl (encode_string k) @ ?R) = Some ([(k', v')], rest)"
    using n 1 2 3 by (simp add: scan_members_step del: scan_members.simps)
  moreover have "dumps_members ops [(k, v)] @ CHR ''}'' # rest = dquote # tl (encode_string k) @ ?R"
    by (simp add: encode_string_def)
  ultimately show ?case by (simp only:) blast
next
  case (13 ops k v mb ms)
  obtain m where n: "n = Suc m" using 13(5) by (cases n) auto
  let ?Z = "dumps_members ops (mb # ms) @ CHR ''}'' # rest"
  let ?W = "json_dumps ops v @ CHR '','' # CHR '' '' # ?Z"
  let ?R = "CHR '':'' # CHR '' '' # ?W"
  have fv: "finite_floats v" and fz: "finite_members (mb # ms)" using 13(4) by simp_all
  have lv: "length (json_dumps ops v) \<le> m" using 13(5) n by simp
  have lz: "length (dumps_members ops (mb # ms)) < m" using 13(5) n by simp
  obtain k' where 1: "scanstring (tl (encode_string k) @ ?R) = Some (k', ?R)"
    using scanstring_encoded by blast
  have "starts_value ?W" using starts_value_dumps[OF fv] by (simp add: starts_value_append)
  then have 2: "skip_ws (CHR '' '' # ?W) = ?W" by (simp add: skip_ws_space skip_ws_value)
  obtain v' where 3: "scan_once ops c m ?W = Some (v', CHR '','' # CHR '' '' # ?Z)"
    using 13(1)[OF fv lv, of "CHR '','' # CHR '' '' # ?Z"] by auto
  obtain k2 r2 where "dumps_members ops (mb # ms) = encode_string k2 @ CHR '':'' # CHR '' '' # r2"
    using dumps_members_quote[of "mb # ms" ops] by blast
  then obtain t where t: "?Z = dquote # t" by (simp add: encode_string_def)
  have "skip_ws ?Z = ?Z" by (simp only: t skip_ws_delims)
  then have 4: "skip_ws (CHR '' '' # ?Z) = ?Z" by (simp add: skip_ws_space)
  obtain ps where 5: "scan_members ops c m ?Z = Some (ps, rest)"
    using 13(2)[OF _ fz lz] by auto
  have "scan_members ops c n (dquote # tl (encode_string k) @ ?R) = Some ((k', v') # ps, rest)"
    using n 1 2 3 4 5 by (simp add: scan_members_step del: scan_members.simps)
  moreover have "dumps_members ops ((k, v) # mb # ms) @ CHR ''}'' # rest =
                   dquote # tl (encode_string k) @ ?R"
    by (simp add: encode_string_def)
  ultimately show ?case by (simp only:) blast
qed

section \<open>The decoder inverts the encoder on plain values\<close>



lemma escape_u_head: "escape_u n @ r = bslash # CHR ''u'' # drop 2 (escape_u n) @ r"
  by (simp add: escape_u_def)











section \<open>The question generator\<close>

lemma json_loads_error: "json_loads ops s = Inl e \<Longrightarrow> e = JSONDecodeError"
  by (auto simp: json_loads_def split: option.splits)

text \<open>
  What the two handlers do with the failures they are written for. When the chat service
  returns a text that \<^verbatim>\<open>json.loads\<close> rejects, \<^verbatim>\<open>generate_questions\<close> returns the empty list
  and writes two lines to standard error: the parse error and the raw text. When the call
  fails with an ordinary exception other than a decode error, it returns the empty list and
  writes one line with the error.
\<close>

lemma generate_questions_handled_failures:
  "(chat (build_prompt topic difficulty n) = Inr t \<and> json_loads ops t = Inl e \<longrightarrow>
      generate_questions ops chat topic difficulty n p =
        (Inr (PList []), p\<lparr>stderr := stderr p @ [ErrParse e, ErrRaw t]\<rparr>)) \<and>
   (chat (build_prompt topic difficulty n) = Inl e' \<and> is_Exception e' \<and> \<not> is_JSONDecodeError e' \<longrightarrow>
      generate_questions ops chat topic difficulty n p =
        (Inr (PList []), p\<lparr>stderr := stderr p @ [ErrApi e']\<rparr>))"
proof (intro conjI impI)
  assume a: "chat (build_prompt topic difficulty n) = Inr t \<and> json_loads ops t = Inl e"
  then have "e = JSONDecodeError" by (auto dest: json_loads_error)
  then show "generate_questions ops chat topic difficulty n p =
        (Inr (PList []), p\<lparr>stderr := stderr p @ [ErrParse e, ErrRaw t]\<rparr>)"
    using a by (simp add: generate_questions_def try_generate_def is_JSONDecodeError_def)
next
  assume "chat (build_prompt topic difficulty n) = Inl e' \<and> is_Exception e' \<and> \<not> is_JSONDecodeError e'"
  then show "generate_questions ops chat topic difficulty n p =
        (Inr (PList []), p\<lparr>stderr := stderr p @ [ErrApi e']\<rparr>)"
    by (simp add: generate_questions_def try_generate_def)
qed

text \<open>
  Claim C1, checked at a failing call. Let the call to the chat service itself raise
  \<^verbatim>\<open>json.JSONDecodeError\<close>. The first \<^verbatim>\<open>except\<close> clause matches and prints its first line;
  its second line reads \<^verbatim>\<open>response.text\<close>, but \<^verbatim>\<open>response\<close> was never bound, so the handler
  raises \<^verbatim>\<open>UnboundLocalError\<close>. \<^verbatim>\<open>generate_questions\<close> does not return the empty list: the
  exception reaches the caller, and in either mode the process ends on it with nothing
  written to standard output.
\<close>

theorem decode_error_of_the_call_is_raised_again:
  "generate_questions ops (\<lambda>prompt. Inl JSONDecodeError) topic difficulty n p =
     (Inl (UnboundLocalError ''response''), p\<lparr>stderr := stderr p @ [ErrParse JSONDecodeError]\<rparr>) \<and>
   run_program ops (\<lambda>prompt. Inl JSONDecodeError) a None inputs =
     (Uncaught (UnboundLocalError ''response''),
      \<lparr>usage_file = None, usage_count = 0, stdin = inputs, stdout = [],
       stderr = [ErrParse JSONDecodeError]\<rparr>)"
  by (cases "arg_mode a")
     (simp_all add: generate_questions_def try_generate_def is_JSONDecodeError_def
        run_program_def read_usage_count_def main_def start_def)







section \<open>The usage file is only read\<close>

definition same_usage :: "proc \<Rightarrow> proc \<Rightarrow> bool" where
  "same_usage p p' = (usage_file p' = usage_file p \<and> usage_count p' = usage_count p)"

lemma same_usage_refl: "same_usage p p"
  by (simp add: same_usage_def)

lemma same_usage_trans: "same_usage p p' \<Longrightarrow> same_usage p' p'' \<Longrightarrow> same_usage p p''"
  by (simp add: same_usage_def)

lemma same_usage_emit: "same_usage p (emit l p)"
  by (simp add: same_usage_def emit_def)

lemma same_usage_emit': "same_usage p p' \<Longrightarrow> same_usage p (emit l p')"
  by (simp add: same_usage_def emit_def)

lemma same_usage_py_input: "same_usage p (snd (py_input p))"
  by (auto simp: same_usage_def py_input_def emit_def Let_def split: list.splits input_event.splits)

lemma same_usage_py_input': "py_input p = (r, p') \<Longrightarrow> same_usage p p'"
  using same_usage_py_input[of p] by simp

lemma same_usage_generate_questions:
  "same_usage p (snd (generate_questions ops chat topic difficulty n p))"
  by (auto simp: same_usage_def generate_questions_def Let_def
      split: prod.splits sum.splits option.splits)

lemma same_usage_print_choices: "print_choices q p = Inr p' \<Longrightarrow> same_usage p p'"
  by (auto simp: same_usage_def print_choices_def split: sum.splits)

lemma same_usage_first_answer: "same_usage p (snd (first_answer q p))"
proof -
  obtain r p1 where i: "py_input p = (r, p1)" by (cases "py_input p")
  then have 1: "same_usage p p1" by (rule same_usage_py_input')
  have "same_usage p1 (snd (first_answer q p))"
    using i by (auto simp: first_answer_def Let_def same_usage_refl same_usage_emit
        intro!: same_usage_emit' split: sum.splits)
  with 1 show ?thesis by (rule same_usage_trans)
qed

lemma same_usage_second_answer: "same_usage p (snd (second_answer q p))"
proof (cases "print_choices q p")
  case (Inl e)
  then show ?thesis by (simp add: second_answer_def same_usage_refl)
next
  case (Inr p1)
  then have 1: "same_usage p p1" by (rule same_usage_print_choices)
  obtain r p2 where i: "py_input p1 = (r, p2)" by (cases "py_input p1")
  then have 2: "same_usage p1 p2" by (rule same_usage_py_input')
  have "same_usage p2 (snd (second_answer q p))"
    using Inr i by (auto simp: second_answer_def Let_def same_usage_refl same_usage_emit
        intro!: same_usage_emit' split: sum.splits)
  with 1 2 show ?thesis by (blast intro: same_usage_trans)
qed

lemma same_usage_quiz_step: "same_usage p (snd (quiz_step i question p))"
proof (cases question)
  case (PDict q)
  show ?thesis
  proof (cases "dict_get q ''question''")
    case (Inl e)
    then show ?thesis using PDict by (simp add: quiz_step_def same_usage_refl)
  next
    case (Inr t)
    let ?p1 = "emit (OutQuestion i t) p"
    have 1: "same_usage p ?p1" by (rule same_usage_emit)
    show ?thesis
    proof (cases "print_choices q ?p1")
      case (Inl e)
      then show ?thesis using PDict Inr 1 by (simp add: quiz_step_def)
    next
      case p2: (Inr p2)
      then have 2: "same_usage ?p1 p2" by (rule same_usage_print_choices)
      obtain r p3 where f: "first_answer q p2 = (r, p3)" by (cases "first_answer q p2")
      then have 3: "same_usage p2 p3" using same_usage_first_answer[of p2 q] by simp
      have 4: "same_usage p3 (snd (second_answer q p3))" by (rule same_usage_second_answer)
      have "same_usage p3 (snd (quiz_step i question p))"
        using PDict Inr p2 f 4
        by (auto simp: quiz_step_def Let_def same_usage_refl same_usage_emit split: sum.splits)
      with 1 2 3 show ?thesis by (blast intro: same_usage_trans)
    qed
  qed
qed (simp_all add: quiz_step_def same_usage_refl)

lemma same_usage_quiz_loop: "same_usage p (snd (quiz_loop i qs p))"
proof (induction qs arbitrary: i p)
  case Nil
  then show ?case by (simp add: same_usage_refl)
next
  case (Cons q qs)
  obtain f p' where s: "quiz_step i q p = (f, p')" by (cases "quiz_step i q p")
  then have 1: "same_usage p p'" using same_usage_quiz_step[of p i q] by simp
  show ?case
  proof (cases f)
    case Continue
    then show ?thesis using s 1 Cons[of p' "Suc i"] by (auto intro: same_usage_trans)
  qed (use s 1 in auto)
qed

lemma same_usage_main: "same_usage p (snd (main ops chat a p))"
proof -
  obtain r p1 where g: "generate_questions ops chat (arg_topic a) (arg_difficulty a) (arg_count a) p = (r, p1)"
    by (cases "generate_questions ops chat (arg_topic a) (arg_difficulty a) (arg_count a) p")
  then have 1: "same_usage p p1"
    using same_usage_generate_questions[of p ops chat "arg_topic a" "arg_difficulty a" "arg_count a"] by simp
  have "same_usage p1 (snd (main ops chat a p))"
    using g same_usage_quiz_loop[of p1]
    by (auto simp: main_def same_usage_refl same_usage_emit split: mode.splits sum.splits)
  with 1 show ?thesis by (rule same_usage_trans)
qed

text \<open>
  Claim C10. No run writes the usage-count file: whatever the mode, the chat service, the
  response and the user's input, the file at the end of the run is the file at its start,
  and the counter in memory is the number read at start-up. \<^verbatim>\<open>log_api_usage\<close> is never
  called.
\<close>

theorem usage_file_never_written:
  "usage_file (snd (run_program ops chat a file inputs)) = file \<and>
   usage_count (snd (run_program ops chat a file inputs)) =
     (case read_usage_count file of Inl e \<Rightarrow> 0 | Inr n \<Rightarrow> n)"
proof (cases "read_usage_count file")
  case (Inl e)
  then show ?thesis by (simp add: run_program_def start_def)
next
  case (Inr n)
  then show ?thesis
    using same_usage_main[of "start file inputs n" ops chat a]
    by (simp add: run_program_def same_usage_def start_def)
qed

theorem usage_file_never_written_witness:
  "usage_file (snd (run_program sample_ops (\<lambda>prompt. Inr sample_response) (sample_args Interactive)
                      (Some ''41'') [Typed ''0'', Typed ''0''])) = Some ''41''"
  using usage_file_never_written
          [of sample_ops "\<lambda>prompt. Inr sample_response" "sample_args Interactive" "Some ''41''"
              "[Typed ''0'', Typed ''0'']"]
  by simp

section \<open>The interactive loop\<close>

text \<open>
  Claim C9. A question object is not checked before it is shown. When it has no
  \<^verbatim>\<open>"question"\<close> key the loop raises \<^verbatim>\<open>KeyError\<close> at line 84, before anything is printed
  for it; when it has no \<^verbatim>\<open>"choices"\<close> key, at line 85; when it has no \<^verbatim>\<open>"answer_index"\<close>
  key, at line 91, once the user has typed an integer from 0 to 3. The first two lookups
  stand outside every \<^verbatim>\<open>try\<close>, and the handler of the \<^verbatim>\<open>try\<close> around the third catches
  \<^verbatim>\<open>ValueError\<close> and \<^verbatim>\<open>KeyboardInterrupt\<close> only: in each case the exception ends the
  process.
\<close>

theorem missing_key_raises_uncaught_KeyError:
  "(map_of q (codepoints ''question'') = None \<longrightarrow>
      quiz_loop i (PDict q # qs) p = (Uncaught (KeyError (PStr (codepoints ''question''))), p)) \<and>
   (map_of q (codepoints ''question'') = Some t \<and> map_of q (codepoints ''choices'') = None \<longrightarrow>
      quiz_loop i (PDict q # qs) p =
        (Uncaught (KeyError (PStr (codepoints ''choices''))), emit (OutQuestion i t) p)) \<and>
   (map_of q (codepoints ''question'') = Some t \<and> map_of q (codepoints ''choices'') = Some (PList cs) \<and>
    map_of q (codepoints ''answer_index'') = None \<and>
    stdin p = Typed line # rest \<and> py_int line = Inr n \<and> 0 \<le> n \<and> n \<le> 3 \<longrightarrow>
      fst (quiz_loop i (PDict q # qs) p) = Uncaught (KeyError (PStr (codepoints ''answer_index''))))"
proof (intro conjI impI)
  assume "map_of q (codepoints ''question'') = None"
  then show "quiz_loop i (PDict q # qs) p = (Uncaught (KeyError (PStr (codepoints ''question''))), p)"
    by (simp add: quiz_step_def dict_get_def)
next
  assume "map_of q (codepoints ''question'') = Some t \<and> map_of q (codepoints ''choices'') = None"
  then show "quiz_loop i (PDict q # qs) p =
        (Uncaught (KeyError (PStr (codepoints ''choices''))), emit (OutQuestion i t) p)"
    by (simp add: quiz_step_def dict_get_def print_choices_def)
next
  assume a: "map_of q (codepoints ''question'') = Some t \<and> map_of q (codepoints ''choices'') = Some (PList cs) \<and>
    map_of q (codepoints ''answer_index'') = None \<and>
    stdin p = Typed line # rest \<and> py_int line = Inr n \<and> 0 \<le> n \<and> n \<le> 3"
  let ?p2 = "(emit (OutQuestion i t) p)\<lparr>stdout := stdout (emit (OutQuestion i t) p) @
               map (\<lambda>(idx, choice). OutChoice idx choice) (enumerate 0 cs)\<rparr>"
  have pc: "print_choices q (emit (OutQuestion i t) p) = Inr ?p2"
    using a by (simp add: print_choices_def dict_get_def py_iter_def)
  have "stdin ?p2 = Typed line # rest" using a by (simp add: emit_def)
  then have "fst (first_answer q ?p2) = Inl (KeyError (PStr (codepoints ''answer_index'')))"
    using a by (simp add: first_answer_def py_input_def emit_def dict_get_def)
  then have "fst (quiz_step i (PDict q) p) = Raise (KeyError (PStr (codepoints ''answer_index'')))"
    using a pc
    by (auto simp: quiz_step_def dict_get_def Let_def is_ValueError_def split: prod.splits sum.splits)
  then show "fst (quiz_loop i (PDict q # qs) p) = Uncaught (KeyError (PStr (codepoints ''answer_index'')))"
    by (auto split: prod.splits flow.splits)
qed

lemma int_2: "py_int ''2'' = Inr 2" by code_simp

lemma int_after_separator: "py_int [CHR 0x1F, CHR ''2''] = Inl ValueError" by code_simp

theorem missing_key_raises_uncaught_KeyError_witness:
  "quiz_loop 1 [PDict [(codepoints ''choices'', PList [])]] (start None [] 0) =
     (Uncaught (KeyError (PStr (codepoints ''question''))), start None [] 0) \<and>
   quiz_loop 1 [PDict [(codepoints ''question'', PStr (codepoints ''Q''))]] (start None [] 0) =
     (Uncaught (KeyError (PStr (codepoints ''choices''))),
      emit (OutQuestion 1 (PStr (codepoints ''Q''))) (start None [] 0)) \<and>
   fst (quiz_loop 1 [PDict [(codepoints ''question'', PStr (codepoints ''Q'')),
                            (codepoints ''choices'', PList [PStr (codepoints ''A'')])]]
          (start None [Typed ''2''] 0)) =
     Uncaught (KeyError (PStr (codepoints ''answer_index'')))"
  using missing_key_raises_uncaught_KeyError
          [where q = "[(codepoints ''choices'', PList [])]" and i = 1 and qs = "[]"
             and p = "start None [] 0"]
        missing_key_raises_uncaught_KeyError
          [where q = "[(codepoints ''question'', PStr (codepoints ''Q''))]"
             and t = "PStr (codepoints ''Q'')" and i = 1 and qs = "[]" and p = "start None [] 0"]
        missing_key_raises_uncaught_KeyError
          [where q = "[(codepoints ''question'', PStr (codepoints ''Q'')),
                       (codepoints ''choices'', PList [PStr (codepoints ''A'')])]"
             and t = "PStr (codepoints ''Q'')" and i = 1 and qs = "[]"
             and p = "start None [Typed ''2''] 0" and cs = "[PStr (codepoints ''A'')]"
             and line = "''2''" and rest = "[]" and n = 2]
        int_2
  by (simp add: codepoints_def start_def)

section \<open>Runs of the whole program\<close>

lemma loads_sample_response:
  "json_loads ops sample_response = Inr (PList [PDict sample_question])"
  by code_simp

text \<open>
  Claim C4, checked at a concrete run. Interactive mode, the response holds two questions,
  the user answers 7 and then 2. After the warning for 7 the loop does not go on to the
  second question: it prints the choices of the first question again and prompts again
  (lines 101 to 105), judges the second answer, and then dies at line 114 with
  \<^verbatim>\<open>NameError\<close>. The second question is never shown.
\<close>

theorem out_of_range_answer_prompts_again:
  "run_program sample_ops (\<lambda>prompt. Inr sample_response2) (sample_args Interactive) None
     [Typed ''7'', Typed ''2''] =
   (Uncaught (NameError ''update_ability''),
    \<lparr>usage_file = None, usage_count = 0, stdin = [],
     stdout = sample_header 1 @ [OutPrompt, OutInvalidRange] @
              tl (sample_header 1) @
              [OutPrompt, OutWrong (PStr (codepoints ''A'')),
               OutExplanation (PStr (codepoints ''It is a markup language.''))],
     stderr = []\<rparr>)"
  by code_simp

text \<open>
  Claim C5, checked at a concrete run. Interactive mode, one question, the user answers 0
  (the right answer) and then types a word. After the verdict and the explanation of the
  first \<^verbatim>\<open>try\<close>, the choices are printed again and there is a second prompt; the line
  \<^verbatim>\<open>Invalid input.\<close> that answers the word is printed by line 107 and by no other line
  of the script. The code after the first \<^verbatim>\<open>try\<close> is reached.
\<close>

theorem code_after_first_try_is_reached:
  "run_program sample_ops (\<lambda>prompt. Inr sample_response) (sample_args Interactive) None
     [Typed ''0'', Typed ''zero''] =
   (Finished,
    \<lparr>usage_file = None, usage_count = 0, stdin = [],
     stdout = sample_header 1 @
              [OutPrompt, OutCorrect,
               OutExplanation (PStr (codepoints ''It is a markup language.''))] @
              tl (sample_header 1) @ [OutPrompt, OutInvalid],
     stderr = []\<rparr>)"
  by code_simp

text \<open>
  Claim C6 fails as stated, at two runs. In batch mode with a usage-count file that holds
  \<^verbatim>\<open>abc\<close>, the process ends with status 1 before the main program starts. In interactive
  mode with one question, answered 0 and 0, \<^verbatim>\<open>generate_questions\<close> returns a list of one
  question and the process ends with status 1, on the \<^verbatim>\<open>NameError\<close> of line 114.
\<close>

theorem exit_status_one_in_other_cases:
  "exit_status (fst (run_program sample_ops (\<lambda>prompt. Inr ''[]'') (sample_args Json)
                       (Some ''abc'') [])) = 1 \<and>
   fst (generate_questions sample_ops (\<lambda>prompt. Inr sample_response) ''HTML Basics''
          ''beginner'' 1 (start None [Typed ''0'', Typed ''0''] 0)) =
     Inr (PList [PDict sample_question]) \<and>
   exit_status (fst (run_program sample_ops (\<lambda>prompt. Inr sample_response)
                       (sample_args Interactive) None [Typed ''0'', Typed ''0''])) = 1"
  by code_simp

text \<open>
  Claim C6, amended. Let the usage count be readable at start-up (the file is absent, blank
  or holds an integer) and let \<^verbatim>\<open>generate_questions\<close> return a value. Then batch mode ends
  with status 0 whatever the value is, the empty list included. Interactive mode ends with
  status 1 when the value is empty (\<^verbatim>\<open>not questions\<close> holds). Interactive mode ends with
  status 0 when the first question is shown and the user, at its first prompt, types
  something that is not an integer or presses Ctrl-C. Nothing is said about a run in which
  the user answers a prompt with an integer.
\<close>

theorem exit_status_by_mode:
  assumes "read_usage_count file = Inr c"
    and "generate_questions ops chat (arg_topic a) (arg_difficulty a) (arg_count a)
           (start file inputs c) = (Inr questions, pg)"
  shows "(arg_mode a = Json \<longrightarrow> exit_status (fst (run_program ops chat a file inputs)) = 0) \<and>
         (arg_mode a = Interactive \<and> \<not> py_truthy questions \<longrightarrow>
            exit_status (fst (run_program ops chat a file inputs)) = 1) \<and>
         (arg_mode a = Interactive \<and> questions = PList (PDict q # qs) \<and>
          map_of q (codepoints ''question'') = Some t \<and>
          map_of q (codepoints ''choices'') = Some (PList cs) \<and>
          (stdin pg = CtrlC # rest \<or> stdin pg = Typed line # rest \<and> py_int line = Inl e) \<longrightarrow>
            exit_status (fst (run_program ops chat a file inputs)) = 0)"
proof (intro conjI impI)
  assume "arg_mode a = Json"
  then show "exit_status (fst (run_program ops chat a file inputs)) = 0"
    using assms by (simp add: run_program_def main_def exit_status_def)
next
  assume "arg_mode a = Interactive \<and> \<not> py_truthy questions"
  then show "exit_status (fst (run_program ops chat a file inputs)) = 1"
    using assms by (simp add: run_program_def main_def exit_status_def)
next
  assume a: "arg_mode a = Interactive \<and> questions = PList (PDict q # qs) \<and>
          map_of q (codepoints ''question'') = Some t \<and>
          map_of q (codepoints ''choices'') = Some (PList cs) \<and>
          (stdin pg = CtrlC # rest \<or> stdin pg = Typed line # rest \<and> py_int line = Inl e)"
  let ?p2 = "(emit (OutQuestion 1 t) pg)\<lparr>stdout := stdout (emit (OutQuestion 1 t) pg) @
               map (\<lambda>(idx, choice). OutChoice idx choice) (enumerate 0 cs)\<rparr>"
  have pc: "print_choices q (emit (OutQuestion 1 t) pg) = Inr ?p2"
    using a by (simp add: print_choices_def dict_get_def py_iter_def)
  have st: "stdin ?p2 = stdin pg" by (simp add: emit_def)
  have ve: "e = ValueError" if "py_int line = Inl e" using that by (rule py_int_error)
  have "\<exists>e' p3. first_answer q ?p2 = (Inl e', p3) \<and> (e' = ValueError \<or> e' = KeyboardInterrupt)"
    using a st ve by (auto simp: first_answer_def py_input_def)
  then have "fst (quiz_step 1 (PDict q) pg) = Break"
    using a pc by (auto simp: quiz_step_def dict_get_def Let_def is_ValueError_def)
  then have "fst (quiz_loop 1 (PDict q # qs) pg) = Finished"
    by (auto split: prod.splits flow.splits)
  then show "exit_status (fst (run_program ops chat a file inputs)) = 0"
    using assms a by (simp add: run_program_def main_def exit_status_def py_truthy_def py_iter_def)
qed

lemma int_quit: "py_int ''quit'' = Inl ValueError" by code_simp

lemma read_missing_file: "read_usage_count None = Inr 0" by (simp add: read_usage_count_def)

lemma generate_empty:
  "generate_questions sample_ops (\<lambda>prompt. Inr ''[]'') ''HTML Basics'' ''beginner'' 1 p =
     (Inr (PList []), p)"
  by code_simp

lemma generate_sample:
  "generate_questions ops (\<lambda>prompt. Inr sample_response) ''HTML Basics'' ''beginner'' 1 p =
     (Inr (PList [PDict sample_question]), p)"
  by (simp add: generate_questions_def try_generate_def loads_sample_response)

theorem exit_status_by_mode_witness:
  "exit_status (fst (run_program sample_ops (\<lambda>prompt. Inr ''[]'') (sample_args Json) None [])) = 0 \<and>
   exit_status (fst (run_program sample_ops (\<lambda>prompt. Inr ''[]'') (sample_args Interactive) None [])) = 1 \<and>
   exit_status (fst (run_program sample_ops (\<lambda>prompt. Inr sample_response) (sample_args Interactive)
                       None [Typed ''quit''])) = 0"
  using exit_status_by_mode
          [of None 0 sample_ops "\<lambda>prompt. Inr ''[]''" "sample_args Json" "[]" "PList []"
              "start None [] 0"]
        exit_status_by_mode
          [of None 0 sample_ops "\<lambda>prompt. Inr ''[]''" "sample_args Interactive" "[]" "PList []"
              "start None [] 0"]
        exit_status_by_mode
          [of None 0 sample_ops "\<lambda>prompt. Inr sample_response" "sample_args Interactive"
              "[Typed ''quit'']" "PList [PDict sample_question]" "start None [Typed ''quit''] 0"
              sample_question "[]" "PStr (codepoints ''What does HTML stand for?'')"
              sample_choices "[]" "''quit''" ValueError]
        read_missing_file generate_empty generate_sample int_quit
  by (simp add: sample_args_def py_truthy_def sample_question_def codepoints_def start_def)

section \<open>Batch mode\<close>

lemma valid_json_dumps:
  assumes "finite_floats v"
  shows "valid_json ops (json_dumps ops v)"
proof -
  let ?s = "json_dumps ops v"
  have "skip_ws ?s = ?s" using starts_value_dumps[OF assms] by (rule skip_ws_value)
  moreover obtain v' where "scan_once ops False (Suc (length ?s)) (?s @ []) = Some (v', [])"
    using scan_dumps(1)[OF assms, of ops "Suc (length ?s)" "[]" False] by auto
  ultimately show ?thesis by (simp add: valid_json_def decode_def skip_ws_def)
qed

lemma stdout_generate_questions:
  "stdout (snd (generate_questions ops chat topic difficulty n p)) = stdout p"
  by (auto simp: generate_questions_def Let_def split: prod.splits sum.splits option.splits)

text \<open>
  What batch mode writes, for every value. When the usage count can be read at start-up
  and \<^verbatim>\<open>generate_questions\<close> returns a value, the process writes one line to standard
  output, the text \<^verbatim>\<open>json.dumps\<close> gives for that value, and ends. When no float \<^verbatim>\<open>nan\<close>,
  \<^verbatim>\<open>inf\<close> or \<^verbatim>\<open>-inf\<close> occurs in the value, that text is valid JSON. For the empty list it
  is \<^verbatim>\<open>[]\<close>.
\<close>

lemma batch_mode_output:
  assumes "arg_mode a = Json"
    and "read_usage_count file = Inr c"
    and "generate_questions ops chat (arg_topic a) (arg_difficulty a) (arg_count a)
           (start file inputs c) = (Inr questions, pg)"
  shows "fst (run_program ops chat a file inputs) = Finished \<and>
         stdout (snd (run_program ops chat a file inputs)) = [OutJson (json_dumps ops questions)] \<and>
         (finite_floats questions \<longrightarrow> valid_json ops (json_dumps ops questions)) \<and>
         json_dumps ops (PList []) = ''[]''"
proof -
  have "stdout pg = stdout (start file inputs c)"
    using stdout_generate_questions
            [of ops chat "arg_topic a" "arg_difficulty a" "arg_count a" "start file inputs c"]
          assms(3)
    by simp
  then have "stdout pg = []" by (simp add: start_def)
  then have "stdout (snd (run_program ops chat a file inputs)) = [OutJson (json_dumps ops questions)]"
    using assms by (simp add: run_program_def main_def emit_def)
  moreover have "fst (run_program ops chat a file inputs) = Finished"
    using assms by (simp add: run_program_def main_def)
  ultimately show ?thesis by (simp add: valid_json_dumps)
qed

text \<open>
  Claim C3, checked at a concrete run. Batch mode, the response is \<^verbatim>\<open>[NaN]\<close>.
  \<^verbatim>\<open>json.loads\<close> accepts that text and gives a list holding the float \<^verbatim>\<open>nan\<close>; the script
  prints \<^verbatim>\<open>json.dumps\<close> of it, the text \<^verbatim>\<open>[NaN]\<close>, and ends with status 0. That text is
  not valid JSON, although line 72 of the script calls the line it prints
  \<^verbatim>\<open>JSON output for Node.js integration\<close>.
\<close>

theorem batch_mode_prints_NaN:
  "json_loads sample_ops ''[NaN]'' = Inr (PList [PFloat FNaN]) \<and>
   run_program sample_ops (\<lambda>prompt. Inr ''[NaN]'') (sample_args Json) None [] =
     (Finished,
      \<lparr>usage_file = None, usage_count = 0, stdin = [], stdout = [OutJson ''[NaN]''],
       stderr = []\<rparr>) \<and>
   \<not> valid_json sample_ops ''[NaN]''"
  by code_simp

end
